theory Spec2Isabelle
  imports Complex_Main "HOL-Library.Sublist"
begin

section \<open>Data model of the emergency server (make-server/index.tsx)\<close>

text \<open>
  The server is a set of HTTP route handlers over a key-value store. Every handler
  reads the authenticated user, reads and writes JSON values in the store and answers
  either \<open>{ error }\<close> with an HTTP status code or \<open>{ success: true, ... }\<close>.

  JavaScript values are modelled as follows. An optional property is an \<open>option\<close>
  (\<open>None\<close> is \<open>undefined\<close> or \<open>null\<close>). A time is the number of milliseconds
  since the epoch: the source stores \<open>new Date().toISOString()\<close> and reads it back
  with \<open>new Date(...).getTime()\<close>, which returns the same number of milliseconds.
  One request reads the clock once (\<open>now\<close>). Numbers that are not times are rationals.
  The \<open>status\<close> of a request body is a string, as the client's type demands.
\<close>

type_synonym timestamp = int

datatype error = Error nat string

text \<open>The user object returned by \<open>supabase.auth.getUser\<close>; \<open>None\<close> for the handler
  stands for \<open>!user || authError\<close>.\<close>

record auth_user =
  uid :: string
  auth_email :: "string option"
  meta_name :: "string option"
  meta_phone :: "string option"
  meta_role :: "string option"

text \<open>The \<open>hospital\<close> object copied onto an emergency at assignment.\<close>

record hospital_info =
  h_id :: "string option"
  h_name :: "string option"
  h_address :: string
  h_phone :: string
  h_latitude :: rat
  h_longitude :: rat

text \<open>
  A stored JSON object. The handlers do not know what kind of object a key holds: the
  path parameter \<open>:id\<close> goes to \<open>kv.get\<close> as it is, so that an emergency route reads and
  writes a user profile when the parameter is \<open>user:<id>\<close>. One type therefore carries
  the properties of both interfaces of utils/api.ts, \<open>Emergency\<close> and \<open>User\<close>, and the
  properties the server adds; \<open>id\<close>, \<open>status\<close>, \<open>latitude\<close>, \<open>longitude\<close> and
  \<open>createdAt\<close> are properties of both. The property \<open>id\<close> is named \<open>obj_id\<close> here,
  \<open>notes\<close> is named \<open>emergency_notes\<close>, and \<open>email\<close>, \<open>name\<close>, \<open>role\<close> and
  \<open>phone\<close> carry the prefix \<open>user_\<close>.
\<close>

record entity =
  obj_id :: "string option"
  patientId :: "string option"
  patientName :: "string option"
  patientPhone :: "string option"
  patientEmail :: "string option"
  latitude :: "rat option"
  longitude :: "rat option"
  description :: "string option"
  status :: "string option"
  createdAt :: "timestamp option"
  updatedAt :: "timestamp option"
  ambulanceId :: "string option"
  hospitalId :: "string option"
  assignedAt :: "timestamp option"
  estimatedTime :: "rat option"
  hospital :: "hospital_info option"
  emergency_notes :: "string option"
  arrivedAtSceneAt :: "timestamp option"
  arrivedAtHospitalAt :: "timestamp option"
  patientLoadedAt :: "timestamp option"
  completedAt :: "timestamp option"
  awaitingPatientConfirmation :: "bool option"
  patientConfirmedArrival :: "bool option"
  patientConfirmedArrivalAt :: "timestamp option"
  patientConfirmedCompletion :: "bool option"
  patientConfirmedCompletionAt :: "timestamp option"
  hospitalConfirmedArrival :: "bool option"
  hospitalConfirmedArrivalAt :: "timestamp option"
  hospitalConfirmedCompletion :: "bool option"
  hospitalConfirmedCompletionAt :: "timestamp option"
  autoAdvanced :: "bool option"
  autoAdvancedReason :: "string option"
  user_email :: "string option"
  user_name :: "string option"
  user_role :: "string option"
  user_phone :: "string option"
  hospitalName :: "string option"
  vehicleNumber :: "string option"
  address :: "string option"
  lastLocationUpdate :: "timestamp option"
  currentEmergency :: "string option"

type_synonym emergency = entity

type_synonym profile = entity

text \<open>The object without properties, \<open>{}\<close>.\<close>

definition no_props :: entity where
  "no_props =
     \<lparr>obj_id = None, patientId = None, patientName = None, patientPhone = None,
      patientEmail = None, latitude = None, longitude = None, description = None,
      status = None, createdAt = None, updatedAt = None, ambulanceId = None,
      hospitalId = None, assignedAt = None, estimatedTime = None, hospital = None,
      emergency_notes = None, arrivedAtSceneAt = None, arrivedAtHospitalAt = None,
      patientLoadedAt = None, completedAt = None, awaitingPatientConfirmation = None,
      patientConfirmedArrival = None, patientConfirmedArrivalAt = None,
      patientConfirmedCompletion = None, patientConfirmedCompletionAt = None,
      hospitalConfirmedArrival = None, hospitalConfirmedArrivalAt = None,
      hospitalConfirmedCompletion = None, hospitalConfirmedCompletionAt = None,
      autoAdvanced = None, autoAdvancedReason = None, user_email = None, user_name = None,
      user_role = None, user_phone = None, hospitalName = None, vehicleNumber = None,
      address = None, lastLocationUpdate = None, currentEmergency = None\<rparr>"

text \<open>
  A stored value is an object or the array of identifiers. In a handler an array is an
  object as well: reading a property of it gives \<open>undefined\<close>, a property written to it
  is accepted, and is gone when the array is stored or answered as JSON.
\<close>

datatype stored = Obj entity | Arr "string list"

fun props :: "stored \<Rightarrow> entity" where
  "props (Obj e) = e"
| "props (Arr l) = no_props"

fun with_props :: "stored \<Rightarrow> entity \<Rightarrow> stored" where
  "with_props (Obj e) e' = Obj e'"
| "with_props (Arr l) e' = Arr l"

text \<open>
  Modelled from the spec: the module \<open>kv_store.tsx\<close> (\<open>kv.get\<close>, \<open>kv.set\<close>) is not
  among the sources. The spec describes it as a key-value store with get and put on single
  keys and no transaction across keys; the values are stored as JSON.

  The store is one keyspace, read by \<open>kv_get\<close> and written by \<open>kv_put\<close> under the raw
  key. Of all writes in the two server modules the only ones that store an array are those
  under the key \<open>emergencies:active\<close>, and every write under that key stores an array (a
  handler stores either a fresh object under \<open>user:<id>\<close> or \<open>emergency:...\<close>, or
  the array under \<open>emergencies:active\<close>, or a value under the key it has read it from).
  The state keeps the array in a component of its own, \<open>active\<close>, and the objects under
  their keys in \<open>objects\<close>.
  A handler runs from its first read to its last write without another handler in between.
\<close>

record kv =
  objects :: "string \<rightharpoonup> entity"
  active :: "string list option"

definition kv_empty :: kv where
  "kv_empty = \<lparr>objects = Map.empty, active = None\<rparr>"

definition kv_get :: "kv \<Rightarrow> string \<Rightarrow> stored option" where
  "kv_get s k =
     (if k = ''emergencies:active'' then map_option Arr (active s)
      else map_option Obj (objects s k))"

fun kv_put :: "kv \<Rightarrow> string \<Rightarrow> stored \<Rightarrow> kv" where
  "kv_put s k (Obj e) = s\<lparr>objects := (objects s)(k \<mapsto> e)\<rparr>"
| "kv_put s k (Arr l) = s\<lparr>active := Some l\<rparr>"

declare kv_put.simps [simp del]

section \<open>JavaScript operators used by the handlers\<close>

text \<open>\<open>a || b\<close> on an optional string with a string default: the empty string is falsy.\<close>

definition or_str :: "string option \<Rightarrow> string \<Rightarrow> string" where
  "or_str a d = (case a of None \<Rightarrow> d | Some x \<Rightarrow> if x = [] then d else x)"

definition or_opt :: "string option \<Rightarrow> string option \<Rightarrow> string option" where
  "or_opt a b = (case a of None \<Rightarrow> b | Some x \<Rightarrow> if x = [] then b else Some x)"

text \<open>\<open>a || d\<close> on an optional number: zero is falsy.\<close>

definition or_num :: "rat option \<Rightarrow> rat \<Rightarrow> rat" where
  "or_num a d = (case a of None \<Rightarrow> d | Some x \<Rightarrow> if x = 0 then d else x)"

text \<open>Truthiness of an optional string, as in \<open>if (notes)\<close> and \<open>if (emergency.ambulanceId)\<close>.\<close>

definition truthy :: "string option \<Rightarrow> bool" where
  "truthy a = (case a of None \<Rightarrow> False | Some x \<Rightarrow> x \<noteq> [])"

text \<open>\<open>kv.get('emergencies:active') || []\<close>: an array, even an empty one, is truthy.\<close>

definition active_or_empty :: "kv \<Rightarrow> string list" where
  "active_or_empty s = (case active s of None \<Rightarrow> [] | Some l \<Rightarrow> l)"

text \<open>The decimal digits of a number inside a template string.\<close>

definition digit_char :: "nat \<Rightarrow> char" where
  "digit_char d = char_of (48 + d)"

function decimal :: "nat \<Rightarrow> string" where
  "decimal n = (if n < 10 then [digit_char n] else decimal (n div 10) @ [digit_char (n mod 10)])"
  by pat_completeness auto
termination
  by (relation "measure (\<lambda>n. n)") auto

declare decimal.simps [simp del]

definition number_to_string :: "int \<Rightarrow> string" where
  "number_to_string i = (if i < 0 then CHR ''-'' # decimal (nat (- i)) else decimal (nat i))"

text \<open>The template strings \<open>`user:${id}`\<close> and \<open>`emergency:${Date.now()}:${user.id}`\<close>.\<close>

definition user_key :: "string \<Rightarrow> string" where
  "user_key i = ''user:'' @ i"

definition emergency_key :: "timestamp \<Rightarrow> string \<Rightarrow> string" where
  "emergency_key now u = ''emergency:'' @ number_to_string now @ '':'' @ u"

section \<open>The route handlers\<close>

subsection \<open>POST /signup\<close>

text \<open>The identity service (\<open>supabase.auth.admin.createUser\<close>) is outside the server: its
  answer is a parameter, \<open>Inl\<close> the error message or \<open>Inr\<close> the new user's id.\<close>

definition post_signup ::
  "kv \<Rightarrow> timestamp \<Rightarrow> string + string \<Rightarrow> string option \<Rightarrow> string option \<Rightarrow> string option
     \<Rightarrow> string option \<Rightarrow> string option \<Rightarrow> string option \<Rightarrow> (error + string) \<times> kv" where
  "post_signup s now created mail role name phone hospName vehicle =
     (case created of
        Inl msg \<Rightarrow> (Inl (Error 400 msg), s)
      | Inr newId \<Rightarrow>
          (Inr newId,
           kv_put s (user_key newId)
             (Obj (no_props\<lparr>obj_id := Some newId, user_email := mail, user_name := name,
                     user_role := role, user_phone := phone, hospitalName := hospName,
                     vehicleNumber := vehicle,
                     status := Some (if role = Some ''ambulance'' then ''available''
                                     else ''active''),
                     createdAt := Some now\<rparr>))))"

subsection \<open>POST /emergency\<close>

definition post_emergency ::
  "kv \<Rightarrow> timestamp \<Rightarrow> auth_user option \<Rightarrow> rat option \<Rightarrow> rat option \<Rightarrow> string option
     \<Rightarrow> string option \<Rightarrow> string option \<Rightarrow> (error + stored) \<times> kv" where
  "post_emergency s now auth lat lon descr pName pPhone =
     (case auth of
        None \<Rightarrow> (Inl (Error 401 ''Unauthorized - Please log in''), s)
      | Some user \<Rightarrow>
          let emergencyId = emergency_key now (uid user);
              emergency = no_props\<lparr>obj_id := Some emergencyId,
                 patientId := Some (uid user),
                 patientName := or_opt pName (meta_name user),
                 patientPhone := or_opt pPhone (meta_phone user),
                 patientEmail := auth_email user,
                 latitude := lat,
                 longitude := lon,
                 description := descr,
                 status := Some ''pending'',
                 createdAt := Some now,
                 updatedAt := Some now\<rparr>;
              s1 = kv_put s emergencyId (Obj emergency);
              activeEmergencies = active_or_empty s1;
              s2 = kv_put s1 ''emergencies:active'' (Arr (activeEmergencies @ [emergencyId]))
          in (Inr (Obj emergency), s2))"

subsection \<open>The two blocks repeated at every transition into completed or cancelled\<close>

text \<open>\<open>// Remove from active emergencies\<close>: read the list, filter, write it back.\<close>

definition remove_from_active :: "string \<Rightarrow> kv \<Rightarrow> kv" where
  "remove_from_active emergencyId s =
     (let activeEmergencies = active_or_empty s;
          updatedActive = filter (\<lambda>i. i \<noteq> emergencyId) activeEmergencies
      in kv_put s ''emergencies:active'' (Arr updatedActive))"

text \<open>\<open>// Update ambulance status to available\<close>.\<close>

definition release_ambulance :: "emergency \<Rightarrow> kv \<Rightarrow> kv" where
  "release_ambulance emergency s =
     (case ambulanceId emergency of
        None \<Rightarrow> s
      | Some a \<Rightarrow>
          if a = [] then s
          else (case kv_get s (user_key a) of
                  None \<Rightarrow> s
                | Some ambulanceProfile \<Rightarrow>
                    kv_put s (user_key a)
                      (with_props ambulanceProfile
                         ((props ambulanceProfile)\<lparr>status := Some ''available'',
                                                  currentEmergency := None\<rparr>))))"

subsection \<open>PATCH /emergency/:id/status\<close>

definition patch_emergency_status ::
  "kv \<Rightarrow> timestamp \<Rightarrow> auth_user option \<Rightarrow> string \<Rightarrow> string \<Rightarrow> string option
     \<Rightarrow> (error + stored) \<times> kv" where
  "patch_emergency_status s now auth emergencyId newStatus newNotes =
     (case auth of
        None \<Rightarrow> (Inl (Error 401 ''Unauthorized - Please log in''), s)
      | Some user \<Rightarrow>
          (case kv_get s emergencyId of
             None \<Rightarrow> (Inl (Error 404 ''Emergency not found''), s)
           | Some emergency \<Rightarrow>
               let e1 = (props emergency)\<lparr>status := Some newStatus, updatedAt := Some now\<rparr>;
                   e2 = (if truthy newNotes then e1\<lparr>emergency_notes := newNotes\<rparr> else e1);
                   e3 = (if newStatus = ''arrived_at_scene''
                         then e2\<lparr>arrivedAtSceneAt := Some now,
                                 awaitingPatientConfirmation := Some True\<rparr>
                         else e2);
                   e4 = (if newStatus = ''arrived_at_hospital''
                         then e3\<lparr>arrivedAtHospitalAt := Some now,
                                 awaitingPatientConfirmation := Some True\<rparr>
                         else e3);
                   e5 = (if newStatus = ''completed'' \<or> newStatus = ''cancelled''
                         then e4\<lparr>completedAt := Some now\<rparr> else e4);
                   s1 = (if newStatus = ''completed'' \<or> newStatus = ''cancelled''
                         then release_ambulance e5 (remove_from_active emergencyId s) else s);
                   s2 = kv_put s1 emergencyId (with_props emergency e5)
               in (Inr (with_props emergency e5), s2)))"

subsection \<open>PATCH /emergency/:id/status of the older module (server/index.tsx)\<close>

text \<open>The older copy of the server serves the same routes on the same store. Its status
  handler is the one above without the two \<open>arrived_at\<close> blocks.\<close>

definition legacy_patch_emergency_status ::
  "kv \<Rightarrow> timestamp \<Rightarrow> auth_user option \<Rightarrow> string \<Rightarrow> string \<Rightarrow> string option
     \<Rightarrow> (error + stored) \<times> kv" where
  "legacy_patch_emergency_status s now auth emergencyId newStatus newNotes =
     (case auth of
        None \<Rightarrow> (Inl (Error 401 ''Unauthorized - Please log in''), s)
      | Some user \<Rightarrow>
          (case kv_get s emergencyId of
             None \<Rightarrow> (Inl (Error 404 ''Emergency not found''), s)
           | Some emergency \<Rightarrow>
               let e1 = (props emergency)\<lparr>status := Some newStatus, updatedAt := Some now\<rparr>;
                   e2 = (if truthy newNotes then e1\<lparr>emergency_notes := newNotes\<rparr> else e1);
                   e3 = (if newStatus = ''completed'' \<or> newStatus = ''cancelled''
                         then e2\<lparr>completedAt := Some now\<rparr> else e2);
                   s1 = (if newStatus = ''completed'' \<or> newStatus = ''cancelled''
                         then release_ambulance e3 (remove_from_active emergencyId s) else s);
                   s2 = kv_put s1 emergencyId (with_props emergency e3)
               in (Inr (with_props emergency e3), s2)))"

subsection \<open>GET /emergencies/active\<close>

definition get_emergencies_active :: "kv \<Rightarrow> auth_user option \<Rightarrow> error + stored list" where
  "get_emergencies_active s auth =
     (case auth of
        None \<Rightarrow> Inl (Error 401 ''Unauthorized - Please log in'')
      | Some user \<Rightarrow>
          if meta_role user \<noteq> Some ''hospital'' \<and> meta_role user \<noteq> Some ''ambulance''
          then Inl (Error 403
                 ''Access denied - Only hospitals and ambulances can view emergencies'')
          else Inr (List.map_filter
                 (\<lambda>i. case kv_get s i of
                        None \<Rightarrow> None
                      | Some emergency \<Rightarrow>
                          if status (props emergency) \<noteq> Some ''completed''
                             \<and> status (props emergency) \<noteq> Some ''cancelled''
                          then Some emergency else None)
                 (active_or_empty s)))"

subsection \<open>POST /emergency/:id/assign\<close>

definition post_emergency_assign ::
  "kv \<Rightarrow> timestamp \<Rightarrow> auth_user option \<Rightarrow> string \<Rightarrow> string option \<Rightarrow> string option
     \<Rightarrow> rat option \<Rightarrow> (error + stored) \<times> kv" where
  "post_emergency_assign s now auth emergencyId ambId hospId eta =
     (case auth of
        None \<Rightarrow> (Inl (Error 401 ''Unauthorized - Please log in''), s)
      | Some user \<Rightarrow>
          (case kv_get s emergencyId of
             None \<Rightarrow> (Inl (Error 404 ''Emergency not found''), s)
           | Some emergency \<Rightarrow>
               let e1 = (props emergency)\<lparr>status := Some ''assigned'',
                          ambulanceId := Some (or_str ambId (uid user)),
                          hospitalId := Some (or_str hospId (uid user)),
                          assignedAt := Some now,
                          estimatedTime := eta,
                          updatedAt := Some now\<rparr>;
                   hospitalUserId = or_str hospId (uid user);
                   e2 = (case kv_get s (user_key hospitalUserId) of
                           None \<Rightarrow> e1
                         | Some hospitalProfile \<Rightarrow>
                             if user_role (props hospitalProfile) = Some ''hospital''
                             then e1\<lparr>hospital := Some
                                    \<lparr>h_id = obj_id (props hospitalProfile),
                                     h_name = or_opt (hospitalName (props hospitalProfile))
                                                (user_name (props hospitalProfile)),
                                     h_address = or_str (address (props hospitalProfile))
                                                   ''Hospital Address'',
                                     h_phone = or_str (user_phone (props hospitalProfile))
                                                 ''N/A'',
                                     h_latitude = or_num (latitude (props hospitalProfile))
                                                    (407829 / 10000),
                                     h_longitude = or_num (longitude (props hospitalProfile))
                                                     (- (739654 / 10000))\<rparr>\<rparr>
                             else e1);
                   s1 = kv_put s emergencyId (with_props emergency e2);
                   ambulanceUserId = or_str ambId (uid user);
                   s2 = (case kv_get s1 (user_key ambulanceUserId) of
                           None \<Rightarrow> s1
                         | Some ambulanceProfile \<Rightarrow>
                             kv_put s1 (user_key ambulanceUserId)
                               (with_props ambulanceProfile
                                  ((props ambulanceProfile)\<lparr>status := Some ''busy'',
                                     currentEmergency := Some emergencyId\<rparr>)))
               in (Inr (with_props emergency e2), s2)))"

subsection \<open>POST /emergency/:id/confirm-arrival\<close>

definition post_confirm_arrival ::
  "kv \<Rightarrow> timestamp \<Rightarrow> auth_user option \<Rightarrow> string \<Rightarrow> (error + stored) \<times> kv" where
  "post_confirm_arrival s now auth emergencyId =
     (case auth of
        None \<Rightarrow> (Inl (Error 401 ''Unauthorized - Please log in''), s)
      | Some user \<Rightarrow>
          (case kv_get s emergencyId of
             None \<Rightarrow> (Inl (Error 404 ''Emergency not found''), s)
           | Some emergency \<Rightarrow>
               if patientId (props emergency) \<noteq> Some (uid user)
               then (Inl (Error 403 ''Only the patient can confirm arrival''), s)
               else if status (props emergency) \<noteq> Some ''arrived_at_scene''
               then (Inl (Error 400 ''Emergency is not in arrived_at_scene status''), s)
               else
                 let e1 = (props emergency)\<lparr>patientConfirmedArrival := Some True,
                            patientConfirmedArrivalAt := Some now,
                            awaitingPatientConfirmation := Some False,
                            status := Some ''patient_loaded'',
                            patientLoadedAt := Some now,
                            updatedAt := Some now\<rparr>
                 in (Inr (with_props emergency e1),
                     kv_put s emergencyId (with_props emergency e1))))"

subsection \<open>POST /emergency/:id/confirm-completion\<close>

definition post_confirm_completion ::
  "kv \<Rightarrow> timestamp \<Rightarrow> auth_user option \<Rightarrow> string \<Rightarrow> (error + stored) \<times> kv" where
  "post_confirm_completion s now auth emergencyId =
     (case auth of
        None \<Rightarrow> (Inl (Error 401 ''Unauthorized - Please log in''), s)
      | Some user \<Rightarrow>
          (case kv_get s emergencyId of
             None \<Rightarrow> (Inl (Error 404 ''Emergency not found''), s)
           | Some emergency \<Rightarrow>
               if patientId (props emergency) \<noteq> Some (uid user)
                  \<and> hospitalId (props emergency) \<noteq> Some (uid user)
               then (Inl (Error 403 ''Only the patient or hospital can confirm completion''), s)
               else if status (props emergency) \<noteq> Some ''arrived_at_hospital''
               then (Inl (Error 400 ''Emergency is not in arrived_at_hospital status''), s)
               else
                 let e1 = (props emergency)\<lparr>patientConfirmedCompletion := Some True,
                            patientConfirmedCompletionAt := Some now,
                            awaitingPatientConfirmation := Some False,
                            status := Some ''completed'',
                            completedAt := Some now,
                            updatedAt := Some now\<rparr>;
                     s1 = kv_put s emergencyId (with_props emergency e1);
                     s2 = remove_from_active emergencyId s1;
                     s3 = release_ambulance e1 s2
                 in (Inr (with_props emergency e1), s3)))"

subsection \<open>POST /emergency/:id/timeout-advance\<close>

definition TIMEOUT_MINUTES :: rat where
  "TIMEOUT_MINUTES = 30"

text \<open>\<open>(now - arrivedTime) / (1000 * 60)\<close>: the quotient of two integers, in minutes.\<close>

definition minutesPassed :: "timestamp \<Rightarrow> timestamp \<Rightarrow> rat" where
  "minutesPassed now arrivedTime = of_int (now - arrivedTime) / (1000 * 60)"

definition post_timeout_advance ::
  "kv \<Rightarrow> timestamp \<Rightarrow> auth_user option \<Rightarrow> string \<Rightarrow> (error + stored) \<times> kv" where
  "post_timeout_advance s now auth emergencyId =
     (case auth of
        None \<Rightarrow> (Inl (Error 401 ''Unauthorized''), s)
      | Some user \<Rightarrow>
          (case kv_get s emergencyId of
             None \<Rightarrow> (Inl (Error 404 ''Emergency not found''), s)
           | Some emergency \<Rightarrow>
               if meta_role user \<noteq> Some ''ambulance'' \<and> meta_role user \<noteq> Some ''hospital''
               then (Inl (Error 403 ''Access denied''), s)
               else
                 let (timeoutReached, e1, s1) =
                       (if status (props emergency) = Some ''arrived_at_scene''
                           \<and> arrivedAtSceneAt (props emergency) \<noteq> None
                        then
                          if minutesPassed now (the (arrivedAtSceneAt (props emergency)))
                               \<ge> TIMEOUT_MINUTES
                          then (True,
                                (props emergency)\<lparr>patientConfirmedArrival := Some False,
                                  autoAdvanced := Some True,
                                  autoAdvancedReason :=
                                    Some ''Patient confirmation timeout after 30 minutes'',
                                  awaitingPatientConfirmation := Some False,
                                  status := Some ''patient_loaded'',
                                  patientLoadedAt := Some now\<rparr>,
                                s)
                          else (False, props emergency, s)
                        else if status (props emergency) = Some ''arrived_at_hospital''
                           \<and> arrivedAtHospitalAt (props emergency) \<noteq> None
                        then
                          if minutesPassed now (the (arrivedAtHospitalAt (props emergency)))
                               \<ge> TIMEOUT_MINUTES
                          then
                            (let e = (props emergency)\<lparr>patientConfirmedCompletion := Some False,
                                       autoAdvanced := Some True,
                                       autoAdvancedReason :=
                                         Some ''Completion confirmation timeout after 30 minutes'',
                                       awaitingPatientConfirmation := Some False,
                                       status := Some ''completed'',
                                       completedAt := Some now\<rparr>
                             in (True, e, release_ambulance e (remove_from_active emergencyId s)))
                          else (False, props emergency, s)
                        else (False, props emergency, s))
                 in if \<not> timeoutReached
                    then (Inl (Error 400
                            ''Timeout period has not passed yet (30 minutes required)''), s)
                    else
                      let e2 = e1\<lparr>updatedAt := Some now\<rparr>
                      in (Inr (with_props emergency e2),
                          kv_put s1 emergencyId (with_props emergency e2))))"

subsection \<open>POST /emergency/:id/hospital-confirm\<close>

definition post_hospital_confirm ::
  "kv \<Rightarrow> timestamp \<Rightarrow> auth_user option \<Rightarrow> string \<Rightarrow> string option
     \<Rightarrow> (error + stored) \<times> kv" where
  "post_hospital_confirm s now auth emergencyId confirmationType =
     (case auth of
        None \<Rightarrow> (Inl (Error 401 ''Unauthorized''), s)
      | Some user \<Rightarrow>
          (case kv_get s emergencyId of
             None \<Rightarrow> (Inl (Error 404 ''Emergency not found''), s)
           | Some emergency \<Rightarrow>
               if meta_role user \<noteq> Some ''hospital''
               then (Inl (Error 403 ''Only hospitals can use this endpoint''), s)
               else if confirmationType = Some ''arrival'' then
                 if status (props emergency) \<noteq> Some ''arrived_at_scene''
                 then (Inl (Error 400 ''Emergency is not in arrived_at_scene status''), s)
                 else
                   let e1 = (props emergency)\<lparr>hospitalConfirmedArrival := Some True,
                              hospitalConfirmedArrivalAt := Some now,
                              awaitingPatientConfirmation := Some False,
                              status := Some ''patient_loaded'',
                              patientLoadedAt := Some now\<rparr>;
                       e2 = e1\<lparr>updatedAt := Some now\<rparr>
                   in (Inr (with_props emergency e2),
                       kv_put s emergencyId (with_props emergency e2))
               else if confirmationType = Some ''completion'' then
                 if status (props emergency) \<noteq> Some ''arrived_at_hospital''
                 then (Inl (Error 400 ''Emergency is not in arrived_at_hospital status''), s)
                 else
                   let e1 = (props emergency)\<lparr>hospitalConfirmedCompletion := Some True,
                              hospitalConfirmedCompletionAt := Some now,
                              awaitingPatientConfirmation := Some False,
                              status := Some ''completed'',
                              completedAt := Some now\<rparr>;
                       s1 = release_ambulance e1 (remove_from_active emergencyId s);
                       e2 = e1\<lparr>updatedAt := Some now\<rparr>
                   in (Inr (with_props emergency e2),
                       kv_put s1 emergencyId (with_props emergency e2))
               else (Inl (Error 400 ''Invalid confirmation type''), s)))"

subsection \<open>The router\<close>

text \<open>One request to one of the routes that write the store, with its parameters and body.\<close>

datatype request =
    PostEmergency "rat option" "rat option" "string option" "string option" "string option"
  | PostAssign string "string option" "string option" "rat option"
  | PatchStatus string string "string option"
  | PostConfirmArrival string
  | PostConfirmCompletion string
  | PostTimeoutAdvance string
  | PostHospitalConfirm string "string option"

fun handle ::
  "kv \<Rightarrow> timestamp \<Rightarrow> auth_user option \<Rightarrow> request \<Rightarrow> (error + stored) \<times> kv" where
  "handle s now auth (PostEmergency lat lon descr pName pPhone) =
     post_emergency s now auth lat lon descr pName pPhone"
| "handle s now auth (PostAssign i ambId hospId eta) =
     post_emergency_assign s now auth i ambId hospId eta"
| "handle s now auth (PatchStatus i newStatus newNotes) =
     patch_emergency_status s now auth i newStatus newNotes"
| "handle s now auth (PostConfirmArrival i) = post_confirm_arrival s now auth i"
| "handle s now auth (PostConfirmCompletion i) = post_confirm_completion s now auth i"
| "handle s now auth (PostTimeoutAdvance i) = post_timeout_advance s now auth i"
| "handle s now auth (PostHospitalConfirm i confirmationType) =
     post_hospital_confirm s now auth i confirmationType"

text \<open>A sequence of requests, each with its time and caller, handled one after another.\<close>

fun run :: "kv \<Rightarrow> (timestamp \<times> auth_user option \<times> request) list \<Rightarrow> kv" where
  "run s [] = s"
| "run s ((now, auth, r) # rs) = run (snd (handle s now auth r)) rs"

section \<open>A lifecycle walk on concrete data\<close>

text \<open>Four users: a patient, two ambulances and a hospital.\<close>

definition patient1 :: auth_user where
  "patient1 = \<lparr>uid = ''p1'', auth_email = Some ''p1@example.org'', meta_name = Some ''Pat'',
                meta_phone = Some ''555-0101'', meta_role = Some ''patient''\<rparr>"

definition amb1 :: auth_user where
  "amb1 = \<lparr>uid = ''a1'', auth_email = Some ''a1@example.org'', meta_name = Some ''Unit 1'',
            meta_phone = None, meta_role = Some ''ambulance''\<rparr>"

definition amb2 :: auth_user where
  "amb2 = \<lparr>uid = ''a2'', auth_email = Some ''a2@example.org'', meta_name = Some ''Unit 2'',
            meta_phone = None, meta_role = Some ''ambulance''\<rparr>"

definition hosp1 :: auth_user where
  "hosp1 = \<lparr>uid = ''h1'', auth_email = Some ''h1@example.org'', meta_name = Some ''General'',
             meta_phone = None, meta_role = Some ''hospital''\<rparr>"

text \<open>The store after the two ambulances and the hospital have signed up.\<close>

definition st_signed_up :: kv where
  "st_signed_up =
     snd (post_signup
       (snd (post_signup
         (snd (post_signup kv_empty 100 (Inr ''a1'') (Some ''a1@example.org'')
                 (Some ''ambulance'') (Some ''Unit 1'') None None (Some ''KA-01'')))
         200 (Inr ''a2'') (Some ''a2@example.org'')
           (Some ''ambulance'') (Some ''Unit 2'') None None (Some ''KA-02'')))
       300 (Inr ''h1'') (Some ''h1@example.org'')
         (Some ''hospital'') (Some ''General'') None (Some ''General Hospital'') None)"

text \<open>The patient creates an emergency at time 1000; its identifier is \<open>id1\<close>.\<close>

definition id1 :: string where
  "id1 = ''emergency:1000:p1''"

definition st_created :: kv where
  "st_created = snd (post_emergency st_signed_up 1000 (Some patient1)
                      (Some (129716 / 10000)) (Some (775946 / 10000))
                      (Some ''chest pain'') None None)"

definition st_assigned :: kv where
  "st_assigned = snd (post_emergency_assign st_created 2000 (Some hosp1) id1
                       (Some ''a1'') (Some ''h1'') (Some 10))"

definition st_enroute :: kv where
  "st_enroute = snd (patch_emergency_status st_assigned 3000 (Some amb1) id1 ''enroute'' None)"

definition st_at_scene :: kv where
  "st_at_scene =
     snd (patch_emergency_status st_enroute 4000 (Some amb1) id1 ''arrived_at_scene'' None)"

definition st_loaded :: kv where
  "st_loaded = snd (post_confirm_arrival st_at_scene 5000 (Some patient1) id1)"

definition st_to_hospital :: kv where
  "st_to_hospital =
     snd (patch_emergency_status st_loaded 6000 (Some amb1) id1 ''enroute_to_hospital'' None)"

definition st_at_hospital :: kv where
  "st_at_hospital =
     snd (patch_emergency_status st_to_hospital 7000 (Some amb1) id1 ''arrived_at_hospital'' None)"

definition st_completed :: kv where
  "st_completed = snd (post_confirm_completion st_at_hospital 8000 (Some patient1) id1)"

text \<open>Scenario D of the specification: the emergency is cancelled while en route.\<close>

definition st_cancelled :: kv where
  "st_cancelled =
     snd (patch_emergency_status st_enroute 3500 (Some patient1) id1 ''cancelled'' None)"

text \<open>Further walks that leave the order of the specification.\<close>

text \<open>The ambulance reports the patient loaded without any confirmation.\<close>

definition st_skipped_gate :: kv where
  "st_skipped_gate =
     snd (patch_emergency_status st_at_scene 4500 (Some amb1) id1 ''patient_loaded'' None)"

text \<open>After the patient's confirmation the ambulance reports the arrival at the scene once
  more.\<close>

definition st_reopened :: kv where
  "st_reopened =
     snd (patch_emergency_status st_loaded 5200 (Some amb1) id1 ''arrived_at_scene'' None)"

text \<open>A completed emergency is set back to en route.\<close>

definition st_revived :: kv where
  "st_revived =
     snd (patch_emergency_status st_completed 9000 (Some amb1) id1 ''enroute'' None)"

text \<open>The patient's client sends the creation twice within the same millisecond.\<close>

definition st_created_twice :: kv where
  "st_created_twice = snd (post_emergency st_created 1000 (Some patient1)
                      (Some (129716 / 10000)) (Some (775946 / 10000))
                      (Some ''chest pain'') None None)"

text \<open>The hospital assigns the emergency a second time, to the other ambulance, which
  then completes it.\<close>

definition st_reassigned :: kv where
  "st_reassigned = snd (post_emergency_assign st_assigned 2500 (Some hosp1) id1
                         (Some ''a2'') (Some ''h1'') None)"

definition st_reassigned_done :: kv where
  "st_reassigned_done =
     snd (patch_emergency_status st_reassigned 9000 (Some amb2) id1 ''completed'' None)"

text \<open>The arrival at the scene is reported through the older module.\<close>

definition st_legacy_at_scene :: kv where
  "st_legacy_at_scene =
     snd (legacy_patch_emergency_status st_enroute 4000 (Some amb1) id1
            ''arrived_at_scene'' None)"

section \<open>The properties of the specification\<close>

text \<open>
  An emergency record is what the store holds under a key that begins with
  \<open>emergency:\<close>: creation stores the records under such keys and the listing routes read
  them back with \<open>kv.getByPrefix('emergency:')\<close>. A unit's or a facility's profile is what
  the store holds under \<open>user:<id>\<close>.
\<close>

definition is_emergency_key :: "string \<Rightarrow> bool" where
  "is_emergency_key k = prefix ''emergency:'' k"

definition emergencies :: "kv \<Rightarrow> string \<rightharpoonup> emergency" where
  "emergencies s j = (if is_emergency_key j then objects s j else None)"

definition users :: "kv \<Rightarrow> string \<rightharpoonup> profile" where
  "users s a = objects s (user_key a)"

text \<open>The key of the one value a request reads as its emergency (for a creation, the
  new identifier).\<close>

fun request_key :: "timestamp \<Rightarrow> auth_user option \<Rightarrow> request \<Rightarrow> string" where
  "request_key now auth (PostEmergency lat lon descr pName pPhone) =
     (case auth of
        None \<Rightarrow> []
      | Some user \<Rightarrow> emergency_key now (uid user))"
| "request_key now auth (PostAssign i ambId hospId eta) = i"
| "request_key now auth (PatchStatus i newStatus newNotes) = i"
| "request_key now auth (PostConfirmArrival i) = i"
| "request_key now auth (PostConfirmCompletion i) = i"
| "request_key now auth (PostTimeoutAdvance i) = i"
| "request_key now auth (PostHospitalConfirm i confirmationType) = i"

text \<open>The terminal statuses.\<close>

definition terminal :: "string option \<Rightarrow> bool" where
  "terminal st = (st = Some ''completed'' \<or> st = Some ''cancelled'')"

text \<open>
  The two confirmation flags of the specification. The server keeps one property per
  confirming party; a gate counts as confirmed when either party's property is \<open>true\<close>.
\<close>

definition arrivalConfirmed :: "emergency \<Rightarrow> bool" where
  "arrivalConfirmed e =
     (patientConfirmedArrival e = Some True \<or> hospitalConfirmedArrival e = Some True)"

definition completionConfirmed :: "emergency \<Rightarrow> bool" where
  "completionConfirmed e =
     (patientConfirmedCompletion e = Some True \<or> hospitalConfirmedCompletion e = Some True)"

text \<open>The gate invariant: awaiting confirmation exactly in a gated status whose
  confirmation flag is not set.\<close>

definition gate_inv :: "emergency \<Rightarrow> bool" where
  "gate_inv e =
     ((awaitingPatientConfirmation e = Some True) =
      ((status e = Some ''arrived_at_scene'' \<and> \<not> arrivalConfirmed e)
       \<or> (status e = Some ''arrived_at_hospital'' \<and> \<not> completionConfirmed e)))"

text \<open>
  The requests under which the gate invariant is kept: an assignment of a record that
  is not awaiting confirmation; an advance into a gated status whose flag is not set yet;
  an advance into another status from a record that is not awaiting confirmation; every
  other request.
\<close>

definition keeps_gate :: "kv \<Rightarrow> request \<Rightarrow> bool" where
  "keeps_gate s r =
     (case r of
        PostAssign i ambId hospId eta \<Rightarrow>
          (case emergencies s i of
             None \<Rightarrow> True
           | Some e \<Rightarrow> awaitingPatientConfirmation e \<noteq> Some True)
      | PatchStatus i target nts \<Rightarrow>
          (case emergencies s i of
             None \<Rightarrow> True
           | Some e \<Rightarrow>
               if target = ''arrived_at_scene'' then \<not> arrivalConfirmed e
               else if target = ''arrived_at_hospital'' then \<not> completionConfirmed e
               else awaitingPatientConfirmation e \<noteq> Some True)
      | _ \<Rightarrow> True)"

text \<open>
  The requests that do not bring a terminal record back to a non-terminal status: an
  assignment of a non-terminal record, an advance of a terminal record into a terminal
  status only, every other request.
\<close>

definition keeps_terminal :: "kv \<Rightarrow> request \<Rightarrow> bool" where
  "keeps_terminal s r =
     (case r of
        PostAssign i ambId hospId eta \<Rightarrow>
          (case emergencies s i of None \<Rightarrow> True | Some e \<Rightarrow> \<not> terminal (status e))
      | PatchStatus i target nts \<Rightarrow>
          (case emergencies s i of
             None \<Rightarrow> True
           | Some e \<Rightarrow> terminal (status e) \<longrightarrow> terminal (Some target))
      | _ \<Rightarrow> True)"

text \<open>The two gates, the status in which a record waits at each, and the name of each
  in the body of a proxy confirmation.\<close>

datatype gate = Arrival | Completion

fun gate_status :: "gate \<Rightarrow> string" where
  "gate_status Arrival = ''arrived_at_scene''"
| "gate_status Completion = ''arrived_at_hospital''"

fun gate_name :: "gate \<Rightarrow> string" where
  "gate_name Arrival = ''arrival''"
| "gate_name Completion = ''completion''"

fun other_gate :: "gate \<Rightarrow> gate" where
  "other_gate Arrival = Completion"
| "other_gate Completion = Arrival"

text \<open>The direct confirmation of a gate, the callers it admits, and the wrong-state answer
  of the two confirmation paths.\<close>

fun confirm_direct ::
  "gate \<Rightarrow> kv \<Rightarrow> timestamp \<Rightarrow> auth_user option \<Rightarrow> string \<Rightarrow> (error + stored) \<times> kv" where
  "confirm_direct Arrival = post_confirm_arrival"
| "confirm_direct Completion = post_confirm_completion"

fun may_confirm :: "gate \<Rightarrow> emergency \<Rightarrow> auth_user \<Rightarrow> bool" where
  "may_confirm Arrival e u = (patientId e = Some (uid u))"
| "may_confirm Completion e u = (patientId e = Some (uid u) \<or> hospitalId e = Some (uid u))"

definition wrong_state :: "gate \<Rightarrow> error" where
  "wrong_state g = Error 400 (''Emergency is not in '' @ gate_status g @ '' status'')"

text \<open>
  A request is a resolution path of gate \<open>g\<close> of record \<open>i\<close>: the direct confirmation of
  that gate, the proxy confirmation with that gate's name, or a timeout advance while the
  record waits at that gate.
\<close>

fun resolves :: "kv \<Rightarrow> request \<Rightarrow> string \<Rightarrow> gate \<Rightarrow> bool" where
  "resolves s (PostConfirmArrival j) i g = (j = i \<and> g = Arrival)"
| "resolves s (PostConfirmCompletion j) i g = (j = i \<and> g = Completion)"
| "resolves s (PostHospitalConfirm j ct) i g = (j = i \<and> ct = Some (gate_name g))"
| "resolves s (PostTimeoutAdvance j) i g =
     (j = i \<and> map_option status (emergencies s i) = Some (Some (gate_status g)))"
| "resolves s _ i g = False"

text \<open>The one request that opens gate \<open>g\<close> of record \<open>i\<close> again: an advance of the record
  into that gate's status.\<close>

fun reopens :: "string \<Rightarrow> gate \<Rightarrow> request \<Rightarrow> bool" where
  "reopens i g (PatchStatus j target nts) = (j = i \<and> target = gate_status g)"
| "reopens i g _ = False"

text \<open>The profile of a released unit.\<close>

definition released :: "profile \<Rightarrow> profile" where
  "released p = p\<lparr>status := Some ''available'', currentEmergency := None\<rparr>"

section \<open>Basic facts about the store and the handlers\<close>


text \<open>The three kinds of keys are disjoint.\<close>

lemma user_key_not_emergency [simp]: "\<not> is_emergency_key (user_key a)"
  by (simp add: is_emergency_key_def user_key_def)

lemma active_key_not_emergency [simp]: "\<not> is_emergency_key ''emergencies:active''"
  by (simp add: is_emergency_key_def)

lemma new_key_emergency [simp]: "is_emergency_key (emergency_key now u)"
  by (simp add: is_emergency_key_def emergency_key_def)

lemma user_key_not_active [simp]:
  "user_key a \<noteq> ''emergencies:active''" "''emergencies:active'' \<noteq> user_key a"
  by (simp_all add: user_key_def)

lemma user_key_inj [simp]: "(user_key a = user_key b) = (a = b)"
  by (simp add: user_key_def)

lemma emergency_key_not_active: "is_emergency_key k \<Longrightarrow> (k = ''emergencies:active'') = False"
  by auto

lemma emergency_key_not_user: "is_emergency_key k \<Longrightarrow> (k = user_key a) = False"
  by auto

lemma emergency_key_not_user': "is_emergency_key k \<Longrightarrow> (user_key a = k) = False"
  by auto

lemmas key_kinds = emergency_key_not_active emergency_key_not_user emergency_key_not_user'

text \<open>A value written under the key it was read from is read back.\<close>

lemma kv_get_put_same:
  "kv_get s k = Some v \<Longrightarrow> kv_get (kv_put s k (with_props v e)) k = Some (with_props v e)"
  by (cases v) (auto simp: kv_get_def kv_put.simps split: if_splits)

lemma emergencies_get:
  "emergencies s i = Some e \<Longrightarrow> kv_get s i = Some (Obj e) \<and> is_emergency_key i"
  by (auto simp: emergencies_def kv_get_def key_kinds split: if_splits)

text \<open>The views of a store after a write.\<close>

lemma emergencies_put_obj [simp]:
  "emergencies (kv_put s k (Obj e)) j
     = (if j = k \<and> is_emergency_key k then Some e else emergencies s j)"
  by (simp add: emergencies_def kv_put.simps)

lemma emergencies_put_arr [simp]: "emergencies (kv_put s k (Arr l)) = emergencies s"
  by (simp add: emergencies_def fun_eq_iff kv_put.simps)

lemma users_put_obj [simp]:
  "users (kv_put s k (Obj e)) a = (if k = user_key a then Some e else users s a)"
  by (simp add: users_def kv_put.simps)

lemma users_put_arr [simp]: "users (kv_put s k (Arr l)) = users s"
  by (simp add: users_def fun_eq_iff kv_put.simps)

lemma active_put_obj [simp]: "active_or_empty (kv_put s k (Obj e)) = active_or_empty s"
  by (simp add: active_or_empty_def kv_put.simps)

lemma active_put_arr [simp]: "active_or_empty (kv_put s k (Arr l)) = l"
  by (simp add: active_or_empty_def kv_put.simps)

lemma kv_get_put_obj:
  "kv_get (kv_put s k (Obj e)) k'
     = (if k' = ''emergencies:active'' then kv_get s k'
        else if k' = k then Some (Obj e) else kv_get s k')"
  by (simp add: kv_get_def kv_put.simps)

lemma kv_get_put_arr:
  "kv_get (kv_put s k (Arr l)) k'
     = (if k' = ''emergencies:active'' then Some (Arr l) else kv_get s k')"
  by (simp add: kv_get_def kv_put.simps)

lemma kv_get_user: "kv_get s (user_key a) = map_option Obj (users s a)"
  by (simp add: kv_get_def users_def)

text \<open>The two blocks of a terminal transition.\<close>

lemma remove_emergencies [simp]: "emergencies (remove_from_active i s) = emergencies s"
  by (simp add: remove_from_active_def Let_def)

lemma remove_users [simp]: "users (remove_from_active i s) = users s"
  by (simp add: remove_from_active_def Let_def)

lemma remove_active [simp]:
  "active_or_empty (remove_from_active i s) = filter (\<lambda>j. j \<noteq> i) (active_or_empty s)"
  by (simp add: remove_from_active_def Let_def)

lemma remove_kv_get:
  "k \<noteq> ''emergencies:active'' \<Longrightarrow> kv_get (remove_from_active i s) k = kv_get s k"
  by (simp add: remove_from_active_def Let_def kv_get_put_arr)

lemma release_emergencies [simp]: "emergencies (release_ambulance e s) = emergencies s"
  by (auto simp: release_ambulance_def kv_get_user fun_eq_iff split: option.splits)

lemma release_active [simp]: "active_or_empty (release_ambulance e s) = active_or_empty s"
  by (auto simp: release_ambulance_def kv_get_user split: option.splits)

lemma release_users:
  "users (release_ambulance e s) a =
     (if ambulanceId e = Some a \<and> a \<noteq> [] then map_option released (users s a) else users s a)"
  by (auto simp: release_ambulance_def kv_get_user released_def split: option.splits)

lemma release_updatedAt [simp]:
  "release_ambulance (e\<lparr>updatedAt := x\<rparr>) s = release_ambulance e s"
  by (simp add: release_ambulance_def)

lemma release_users_remove [simp]:
  "users (release_ambulance e (remove_from_active i s)) = users (release_ambulance e s)"
  by (auto simp: release_users fun_eq_iff)

lemma release_users_put_emergency [simp]:
  "is_emergency_key k \<Longrightarrow>
     users (release_ambulance e (kv_put s k (Obj x))) = users (release_ambulance e s)"
  by (auto simp: release_users fun_eq_iff key_kinds)



lemma kv_get_emergency:
  "is_emergency_key i \<Longrightarrow> kv_get s i = map_option Obj (emergencies s i)"
  by (simp add: kv_get_def emergencies_def key_kinds)

lemma emergencies_other_key: "\<not> is_emergency_key j \<Longrightarrow> emergencies s j = None"
  by (simp add: emergencies_def)

lemma emergencies_put_other [simp]:
  "\<not> is_emergency_key k \<Longrightarrow> emergencies (kv_put s k v) = emergencies s"
  by (cases v) (auto simp: fun_eq_iff emergencies_other_key)

text \<open>An error answer leaves the store as it is.\<close>

lemma handle_error_unchanged:
  "isl (fst (handle s now auth r)) \<longrightarrow> snd (handle s now auth r) = s"
proof (cases r)
  case (PostEmergency lat lon descr pName pPhone)
  then show ?thesis
    by (simp add: post_emergency_def Let_def split: option.splits)
next
  case (PostAssign i ambId hospId eta)
  then show ?thesis
    by (simp add: post_emergency_assign_def Let_def split: option.splits)
next
  case (PatchStatus i target nts)
  then show ?thesis
    by (simp add: patch_emergency_status_def Let_def split: option.splits)
next
  case (PostConfirmArrival i)
  then show ?thesis
    by (simp add: post_confirm_arrival_def Let_def split: option.splits)
next
  case (PostConfirmCompletion i)
  then show ?thesis
    by (simp add: post_confirm_completion_def Let_def split: option.splits)
next
  case (PostTimeoutAdvance i)
  then show ?thesis
    by (simp add: post_timeout_advance_def Let_def split: option.splits)
next
  case (PostHospitalConfirm i ct)
  then show ?thesis
    by (simp add: post_hospital_confirm_def Let_def split: option.splits)
qed

text \<open>A request writes no emergency record but the one under its key.\<close>

lemma handle_frame:
  assumes "j \<noteq> request_key now auth r"
  shows "emergencies (snd (handle s now auth r)) j = emergencies s j"
proof (cases "is_emergency_key j")
  case False
  then show ?thesis by (simp add: emergencies_other_key)
next
  case True
  show ?thesis
  proof (cases r)
    case (PostEmergency lat lon descr pName pPhone)
    with assms show ?thesis
      by (simp add: post_emergency_def Let_def key_kinds kv_get_put_obj kv_get_put_arr kv_get_user split: option.splits)
  next
    case (PostAssign i ambId hospId eta)
    with assms True show ?thesis
      by (cases "kv_get s i"; cases "the (kv_get s i)")
         (simp_all add: post_emergency_assign_def Let_def key_kinds kv_get_put_obj kv_get_put_arr kv_get_user split: option.splits)
  next
    case (PatchStatus i target nts)
    with assms True show ?thesis
      by (cases "kv_get s i"; cases "the (kv_get s i)")
         (simp_all add: patch_emergency_status_def Let_def key_kinds kv_get_put_obj kv_get_put_arr kv_get_user split: option.splits)
  next
    case (PostConfirmArrival i)
    with assms True show ?thesis
      by (cases "kv_get s i"; cases "the (kv_get s i)")
         (simp_all add: post_confirm_arrival_def Let_def key_kinds kv_get_put_obj kv_get_put_arr kv_get_user split: option.splits)
  next
    case (PostConfirmCompletion i)
    with assms True show ?thesis
      by (cases "kv_get s i"; cases "the (kv_get s i)")
         (simp_all add: post_confirm_completion_def Let_def key_kinds kv_get_put_obj kv_get_put_arr kv_get_user split: option.splits)
  next
    case (PostTimeoutAdvance i)
    with assms True show ?thesis
      by (cases "kv_get s i"; cases "the (kv_get s i)")
         (simp_all add: post_timeout_advance_def Let_def key_kinds kv_get_put_obj kv_get_put_arr kv_get_user split: option.splits)
  next
    case (PostHospitalConfirm i ct)
    with assms True show ?thesis
      by (cases "kv_get s i"; cases "the (kv_get s i)")
         (simp_all add: post_hospital_confirm_def Let_def key_kinds kv_get_put_obj kv_get_put_arr kv_get_user split: option.splits)
  qed
qed

text \<open>After a request the record under its key, if it is an emergency record, is as
  before or satisfies the gate invariant, under the conditions of \<open>keeps_gate\<close>.\<close>

lemma handle_success_gate:
  assumes key: "is_emergency_key (request_key now auth r)"
  shows "\<not> isl (fst (handle s now auth r)) \<longrightarrow> keeps_gate s r \<longrightarrow>
     (\<exists>e'. emergencies (snd (handle s now auth r)) (request_key now auth r) = Some e'
        \<and> gate_inv e')"
proof (cases r)
  case (PostEmergency lat lon descr pName pPhone)
  then show ?thesis
    by (simp add: post_emergency_def Let_def gate_inv_def no_props_def split: option.splits)
next
  case (PostAssign i ambId hospId eta)
  with key show ?thesis
    by (simp add: post_emergency_assign_def keeps_gate_def Let_def gate_inv_def
          kv_get_emergency kv_get_user key_kinds kv_get_put_obj split: option.splits)
next
  case (PatchStatus i target nts)
  with key show ?thesis
    by (simp add: patch_emergency_status_def keeps_gate_def Let_def gate_inv_def
          arrivalConfirmed_def completionConfirmed_def kv_get_emergency key_kinds split: option.splits)
next
  case (PostConfirmArrival i)
  with key show ?thesis
    by (simp add: post_confirm_arrival_def Let_def gate_inv_def kv_get_emergency key_kinds
          split: option.splits)
next
  case (PostConfirmCompletion i)
  with key show ?thesis
    by (simp add: post_confirm_completion_def Let_def gate_inv_def kv_get_emergency key_kinds
          split: option.splits)
next
  case (PostTimeoutAdvance i)
  with key show ?thesis
    by (simp add: post_timeout_advance_def Let_def gate_inv_def kv_get_emergency key_kinds
          split: option.splits)
next
  case (PostHospitalConfirm i ct)
  with key show ?thesis
    by (simp add: post_hospital_confirm_def Let_def gate_inv_def kv_get_emergency key_kinds
          split: option.splits)
qed

lemma kv_get_arr: "kv_get s i = Some (Arr l) \<Longrightarrow> active_or_empty s = l"
  by (auto simp: kv_get_def active_or_empty_def split: if_splits)

text \<open>What a successful request on an emergency record does to the active list.\<close>

lemma handle_success_active:
  assumes key: "is_emergency_key (request_key now auth r)"
  shows "\<not> isl (fst (handle s now auth r)) \<longrightarrow>
     (\<exists>e'. emergencies (snd (handle s now auth r)) (request_key now auth r) = Some e'
        \<and> ((\<not> terminal (status e')
              \<and> active_or_empty (snd (handle s now auth r))
                   = active_or_empty s @ [request_key now auth r])
           \<or> (terminal (status e')
              \<and> active_or_empty (snd (handle s now auth r))
                   = filter (\<lambda>j. j \<noteq> request_key now auth r) (active_or_empty s))
           \<or> (\<not> terminal (status e')
              \<and> active_or_empty (snd (handle s now auth r)) = active_or_empty s
              \<and> (keeps_terminal s r \<longrightarrow>
                   (\<exists>e. emergencies s (request_key now auth r) = Some e
                      \<and> \<not> terminal (status e))))))"
proof (cases r)
  case (PostEmergency lat lon descr pName pPhone)
  then show ?thesis
    by (simp add: post_emergency_def Let_def terminal_def no_props_def split: option.splits)
next
  case (PostAssign i ambId hospId eta)
  with key show ?thesis
    by (simp add: post_emergency_assign_def keeps_terminal_def Let_def terminal_def
          kv_get_emergency kv_get_user kv_get_put_obj key_kinds split: option.splits)
next
  case (PatchStatus i target nts)
  with key show ?thesis
    by (simp add: patch_emergency_status_def keeps_terminal_def Let_def terminal_def
          kv_get_emergency key_kinds split: option.splits)
next
  case (PostConfirmArrival i)
  with key show ?thesis
    by (simp add: post_confirm_arrival_def Let_def terminal_def kv_get_emergency key_kinds
          split: option.splits)
next
  case (PostConfirmCompletion i)
  with key show ?thesis
    by (simp add: post_confirm_completion_def Let_def terminal_def kv_get_emergency key_kinds
          split: option.splits)
next
  case (PostTimeoutAdvance i)
  with key show ?thesis
    by (simp add: post_timeout_advance_def Let_def terminal_def kv_get_emergency key_kinds
          split: option.splits)
next
  case (PostHospitalConfirm i ct)
  with key show ?thesis
    by (simp add: post_hospital_confirm_def Let_def terminal_def kv_get_emergency key_kinds
          split: option.splits)
qed

text \<open>What any request does to the active list: nothing, the removal of its key, or
  the addition of a new emergency key.\<close>

lemma handle_active_shape:
  "active_or_empty (snd (handle s now auth r)) = active_or_empty s
   \<or> active_or_empty (snd (handle s now auth r))
        = filter (\<lambda>j. j \<noteq> request_key now auth r) (active_or_empty s)
   \<or> (is_emergency_key (request_key now auth r)
       \<and> active_or_empty (snd (handle s now auth r))
            = active_or_empty s @ [request_key now auth r])"
proof (cases r)
  case (PostEmergency lat lon descr pName pPhone)
  then show ?thesis
    by (simp add: post_emergency_def Let_def split: option.splits)
next
  case (PostAssign i ambId hospId eta)
  show ?thesis
  proof (cases "kv_get s i")
    case None
    with PostAssign show ?thesis
      by (simp add: post_emergency_assign_def split: option.splits)
  next
    case (Some v)
    with PostAssign kv_get_arr [of s i] show ?thesis
      by (cases v)
         (simp_all add: post_emergency_assign_def Let_def kv_get_user kv_get_put_obj kv_get_put_arr
            split: option.splits)
  qed
next
  case (PatchStatus i target nts)
  show ?thesis
  proof (cases "kv_get s i")
    case None
    with PatchStatus show ?thesis
      by (simp add: patch_emergency_status_def split: option.splits)
  next
    case (Some v)
    with PatchStatus kv_get_arr [of s i] show ?thesis
      by (cases v)
         (simp_all add: patch_emergency_status_def Let_def kv_get_user kv_get_put_obj kv_get_put_arr
            split: option.splits)
  qed
next
  case (PostConfirmArrival i)
  show ?thesis
  proof (cases "kv_get s i")
    case None
    with PostConfirmArrival show ?thesis
      by (simp add: post_confirm_arrival_def split: option.splits)
  next
    case (Some v)
    with PostConfirmArrival kv_get_arr [of s i] show ?thesis
      by (cases v)
         (simp_all add: post_confirm_arrival_def Let_def kv_get_user kv_get_put_obj kv_get_put_arr
            split: option.splits)
  qed
next
  case (PostConfirmCompletion i)
  show ?thesis
  proof (cases "kv_get s i")
    case None
    with PostConfirmCompletion show ?thesis
      by (simp add: post_confirm_completion_def split: option.splits)
  next
    case (Some v)
    with PostConfirmCompletion kv_get_arr [of s i] show ?thesis
      by (cases v)
         (simp_all add: post_confirm_completion_def Let_def kv_get_user kv_get_put_obj kv_get_put_arr
            split: option.splits)
  qed
next
  case (PostTimeoutAdvance i)
  show ?thesis
  proof (cases "kv_get s i")
    case None
    with PostTimeoutAdvance show ?thesis
      by (simp add: post_timeout_advance_def split: option.splits)
  next
    case (Some v)
    with PostTimeoutAdvance kv_get_arr [of s i] show ?thesis
      by (cases v)
         (simp_all add: post_timeout_advance_def Let_def kv_get_user kv_get_put_obj kv_get_put_arr
            split: option.splits)
  qed
next
  case (PostHospitalConfirm i ct)
  show ?thesis
  proof (cases "kv_get s i")
    case None
    with PostHospitalConfirm show ?thesis
      by (simp add: post_hospital_confirm_def split: option.splits)
  next
    case (Some v)
    with PostHospitalConfirm kv_get_arr [of s i] show ?thesis
      by (cases v)
         (simp_all add: post_hospital_confirm_def Let_def kv_get_user kv_get_put_obj kv_get_put_arr
            split: option.splits)
  qed
qed

lemma active_keys_step:
  assumes "\<forall>j \<in> set (active_or_empty s). is_emergency_key j"
  shows "\<forall>j \<in> set (active_or_empty (snd (handle s now auth r))). is_emergency_key j"
  using assms handle_active_shape [of s now auth r] by auto

lemma list_active_exact:
  assumes inv: "\<forall>j e. emergencies s j = Some e \<longrightarrow>
                  (j \<in> set (active_or_empty s)) = (\<not> terminal (status e))"
      and keys: "\<forall>j \<in> set (active_or_empty s). is_emergency_key j"
      and role: "meta_role u = Some ''hospital'' \<or> meta_role u = Some ''ambulance''"
  shows "\<exists>l. get_emergencies_active s (Some u) = Inr l
           \<and> set l = Obj ` {e. \<exists>j. emergencies s j = Some e \<and> \<not> terminal (status e)}"
proof -
  let ?f = "\<lambda>i. case kv_get s i of
                   None \<Rightarrow> None
                 | Some emergency \<Rightarrow>
                     if status (props emergency) \<noteq> Some ''completed''
                        \<and> status (props emergency) \<noteq> Some ''cancelled''
                     then Some emergency else None"
  have res: "get_emergencies_active s (Some u) = Inr (List.map_filter ?f (active_or_empty s))"
    using role by (auto simp: get_emergencies_active_def)
  have "set (List.map_filter ?f (active_or_empty s))
          = Obj ` {e. \<exists>j. emergencies s j = Some e \<and> \<not> terminal (status e)}"
  proof (intro set_eqI iffI)
    fix v assume "v \<in> set (List.map_filter ?f (active_or_empty s))"
    then obtain j where listed: "j \<in> set (active_or_empty s)" and hit: "?f j = Some v"
      by (auto simp: List.map_filter_def)
    from listed keys have "kv_get s j = map_option Obj (emergencies s j)"
      by (simp add: kv_get_emergency)
    with hit show "v \<in> Obj ` {e. \<exists>j. emergencies s j = Some e \<and> \<not> terminal (status e)}"
      by (auto simp: terminal_def split: option.splits if_splits)
  next
    fix v assume "v \<in> Obj ` {e. \<exists>j. emergencies s j = Some e \<and> \<not> terminal (status e)}"
    then obtain e j where v: "v = Obj e" and stored: "emergencies s j = Some e"
      and nt: "\<not> terminal (status e)"
      by blast
    with inv have listed: "j \<in> set (active_or_empty s)" by blast
    from stored have "kv_get s j = Some (Obj e)"
      by (simp add: emergencies_get)
    with nt v have "?f j = Some v" by (simp add: terminal_def)
    with listed show "v \<in> set (List.map_filter ?f (active_or_empty s))"
      by (force simp: List.map_filter_def)
  qed
  with res show ?thesis by blast
qed

lemma active_index_step:
  assumes inv: "\<forall>j e. emergencies s j = Some e \<longrightarrow>
                  (j \<in> set (active_or_empty s)) = (\<not> terminal (status e))"
      and keeps: "keeps_terminal s r"
  shows "\<forall>j e. emergencies (snd (handle s now auth r)) j = Some e \<longrightarrow>
           (j \<in> set (active_or_empty (snd (handle s now auth r)))) = (\<not> terminal (status e))"
proof (cases "isl (fst (handle s now auth r))")
  case True
  with handle_error_unchanged [of s now auth r] inv show ?thesis
    by simp
next
  case ok: False
  let ?s' = "snd (handle s now auth r)" and ?k = "request_key now auth r"
  show ?thesis
  proof (cases "is_emergency_key ?k")
    case True
    from ok handle_success_active [OF True, of s] keeps
    obtain e' where key: "emergencies ?s' ?k = Some e'"
      and act: "(\<not> terminal (status e') \<and> active_or_empty ?s' = active_or_empty s @ [?k])
              \<or> (terminal (status e')
                  \<and> active_or_empty ?s' = filter (\<lambda>j. j \<noteq> ?k) (active_or_empty s))
              \<or> (\<not> terminal (status e') \<and> active_or_empty ?s' = active_or_empty s
                  \<and> (\<exists>e. emergencies s ?k = Some e \<and> \<not> terminal (status e)))"
      by blast
    show ?thesis
    proof (intro allI impI)
      fix j e assume stored: "emergencies ?s' j = Some e"
      show "(j \<in> set (active_or_empty ?s')) = (\<not> terminal (status e))"
      proof (cases "j = ?k")
        case True
        with stored key have "e = e'" by simp
        with act inv True show ?thesis
          by auto
      next
        case False
        with stored handle_frame [of j now auth r s] have old: "emergencies s j = Some e"
          by simp
        from act False have "(j \<in> set (active_or_empty ?s')) = (j \<in> set (active_or_empty s))"
          by auto
        with old inv show ?thesis by blast
      qed
    qed
  next
    case other: False
    show ?thesis
    proof (intro allI impI)
      fix j e assume stored: "emergencies ?s' j = Some e"
      then have jkey: "is_emergency_key j"
        by (simp add: emergencies_get)
      with other have neq: "j \<noteq> ?k" by auto
      with stored handle_frame [of j now auth r s] have old: "emergencies s j = Some e"
        by simp
      from handle_active_shape [of s now auth r] other neq
      have "(j \<in> set (active_or_empty ?s')) = (j \<in> set (active_or_empty s))"
        by auto
      with old inv show "(j \<in> set (active_or_empty ?s')) = (\<not> terminal (status e))"
        by blast
    qed
  qed
qed

text \<open>A request that makes an emergency record terminal releases the unit named on it.\<close>

lemma handle_success_release:
  assumes key: "is_emergency_key (request_key now auth r)"
  shows "\<not> isl (fst (handle s now auth r)) \<longrightarrow>
     (\<exists>e'. emergencies (snd (handle s now auth r)) (request_key now auth r) = Some e'
        \<and> (terminal (status e') \<longrightarrow>
             users (snd (handle s now auth r)) = users (release_ambulance e' s)))"
proof (cases r)
  case (PostEmergency lat lon descr pName pPhone)
  then show ?thesis
    by (simp add: post_emergency_def Let_def terminal_def no_props_def split: option.splits)
next
  case (PostAssign i ambId hospId eta)
  with key show ?thesis
    by (simp add: post_emergency_assign_def Let_def terminal_def
          kv_get_emergency kv_get_user kv_get_put_obj key_kinds split: option.splits)
next
  case (PatchStatus i target nts)
  with key show ?thesis
    by (simp add: patch_emergency_status_def Let_def terminal_def
          kv_get_emergency key_kinds fun_eq_iff split: option.splits)
next
  case (PostConfirmArrival i)
  with key show ?thesis
    by (simp add: post_confirm_arrival_def Let_def terminal_def kv_get_emergency key_kinds
          split: option.splits)
next
  case (PostConfirmCompletion i)
  with key show ?thesis
    by (simp add: post_confirm_completion_def Let_def terminal_def kv_get_emergency key_kinds
          split: option.splits)
next
  case (PostTimeoutAdvance i)
  with key show ?thesis
    by (simp add: post_timeout_advance_def Let_def terminal_def kv_get_emergency key_kinds
          fun_eq_iff split: option.splits)
next
  case (PostHospitalConfirm i ct)
  with key show ?thesis
    by (simp add: post_hospital_confirm_def Let_def terminal_def kv_get_emergency key_kinds
          fun_eq_iff split: option.splits)
qed

lemma release_on_terminal:
  assumes before: "emergencies s i = Some e" "\<not> terminal (status e)"
      and after: "emergencies (snd (handle s now auth r)) i = Some e'" "terminal (status e')"
      and unit: "ambulanceId e' = Some a" "a \<noteq> []" "users s a = Some p"
  shows "users (snd (handle s now auth r)) a = Some (released p)"
proof -
  have changed: "emergencies (snd (handle s now auth r)) i \<noteq> emergencies s i"
    using before after by auto
  then have ok: "\<not> isl (fst (handle s now auth r))"
    using handle_error_unchanged [of s now auth r] by auto
  from changed have k: "i = request_key now auth r"
    using handle_frame [of i now auth r s] by blast
  from before(1) k have "is_emergency_key (request_key now auth r)"
    by (simp add: emergencies_get)
  from ok handle_success_release [OF this, of s] k after
  have "users (snd (handle s now auth r)) = users (release_ambulance e' s)"
    by auto
  with unit show ?thesis
    by (simp add: release_users)
qed

lemma assign_marks_busy:
  assumes "emergencies s i = Some e" and "users s (or_str ambId (uid user)) = Some p"
  shows "users (snd (post_emergency_assign s now (Some user) i ambId hospId eta))
           (or_str ambId (uid user))
         = Some (p\<lparr>status := Some ''busy'', currentEmergency := Some i\<rparr>)"
proof -
  from assms(1) have "is_emergency_key i" and "kv_get s i = Some (Obj e)"
    by (simp_all add: emergencies_get)
  with assms(2) show ?thesis
    by (simp add: post_emergency_assign_def Let_def kv_get_user kv_get_put_obj key_kinds
          split: option.splits)
qed

text \<open>A resolved gate: after a successful resolution the record is in the successor
  status; while no advance opens the gate again the record stays outside the gate's
  status; and a record outside the gate's status is rejected by the paths of that gate.\<close>

lemma resolves_key: "resolves s r i g \<Longrightarrow> i = request_key now auth r"
  by (cases r) simp_all

lemma closed_after_resolution:
  assumes key: "is_emergency_key (request_key now auth r)"
  shows "\<not> isl (fst (handle s now auth r)) \<longrightarrow> resolves s r (request_key now auth r) g \<longrightarrow>
     (\<exists>e1. emergencies (snd (handle s now auth r)) (request_key now auth r) = Some e1
        \<and> status e1 \<noteq> Some (gate_status g))"
proof (cases r)
  case (PostConfirmArrival j)
  with key show ?thesis
    by (cases g)
       (simp_all add: post_confirm_arrival_def Let_def kv_get_emergency key_kinds
          split: option.splits)
next
  case (PostConfirmCompletion j)
  with key show ?thesis
    by (cases g)
       (simp_all add: post_confirm_completion_def Let_def kv_get_emergency key_kinds
          split: option.splits)
next
  case (PostTimeoutAdvance j)
  with key show ?thesis
    by (cases g)
       (simp_all add: post_timeout_advance_def Let_def kv_get_emergency key_kinds
          split: option.splits)
next
  case (PostHospitalConfirm j ct)
  with key show ?thesis
    by (cases g)
       (simp_all add: post_hospital_confirm_def Let_def kv_get_emergency key_kinds
          split: option.splits)
qed simp_all

lemma closed_step_key:
  assumes key: "is_emergency_key (request_key now auth r)"
  shows "(\<exists>e. emergencies s (request_key now auth r) = Some e
            \<and> status e \<noteq> Some (gate_status g)) \<longrightarrow>
         \<not> reopens (request_key now auth r) g r \<longrightarrow>
         (\<exists>e'. emergencies (snd (handle s now auth r)) (request_key now auth r) = Some e'
            \<and> status e' \<noteq> Some (gate_status g))"
proof (cases r)
  case (PostEmergency lat lon descr pName pPhone)
  then show ?thesis
    by (cases g) (simp_all add: post_emergency_def Let_def no_props_def split: option.splits)
next
  case (PostAssign i ambId hospId eta)
  with key show ?thesis
    by (cases g)
       (simp_all add: post_emergency_assign_def Let_def kv_get_emergency kv_get_user
          kv_get_put_obj key_kinds split: option.splits)
next
  case (PatchStatus i target nts)
  with key show ?thesis
    by (cases g)
       (simp_all add: patch_emergency_status_def Let_def kv_get_emergency key_kinds
          split: option.splits)
next
  case (PostConfirmArrival i)
  with key show ?thesis
    by (cases g)
       (simp_all add: post_confirm_arrival_def Let_def kv_get_emergency key_kinds
          split: option.splits)
next
  case (PostConfirmCompletion i)
  with key show ?thesis
    by (cases g)
       (simp_all add: post_confirm_completion_def Let_def kv_get_emergency key_kinds
          split: option.splits)
next
  case (PostTimeoutAdvance i)
  with key show ?thesis
    by (cases g)
       (simp_all add: post_timeout_advance_def Let_def kv_get_emergency key_kinds
          split: option.splits)
next
  case (PostHospitalConfirm i ct)
  with key show ?thesis
    by (cases g)
       (simp_all add: post_hospital_confirm_def Let_def kv_get_emergency key_kinds
          split: option.splits)
qed

lemma closed_step:
  assumes "emergencies s i = Some e" and "status e \<noteq> Some (gate_status g)"
      and "\<not> reopens i g r"
  shows "\<exists>e'. emergencies (snd (handle s now auth r)) i = Some e'
           \<and> status e' \<noteq> Some (gate_status g)"
proof (cases "i = request_key now auth r")
  case True
  with assms(1) have "is_emergency_key (request_key now auth r)"
    by (simp add: emergencies_get)
  from closed_step_key [OF this, of s g] assms True show ?thesis
    by auto
next
  case False
  with handle_frame [of i now auth r s] assms show ?thesis
    by simp
qed

lemma closed_run:
  assumes "emergencies s i = Some e" and "status e \<noteq> Some (gate_status g)"
      and "\<forall>x \<in> set rs. \<not> reopens i g (snd (snd x))"
  shows "\<exists>e'. emergencies (run s rs) i = Some e' \<and> status e' \<noteq> Some (gate_status g)"
  using assms
proof (induction rs arbitrary: s e)
  case Nil
  then show ?case by simp
next
  case (Cons x rs)
  obtain now auth r where x: "x = (now, auth, r)"
    by (cases x) auto
  with Cons.prems have "\<not> reopens i g r"
    by simp
  with Cons.prems(1,2) obtain e' where
    "emergencies (snd (handle s now auth r)) i = Some e'" "status e' \<noteq> Some (gate_status g)"
    using closed_step [of s i e g r now auth] by blast
  with Cons.IH [of "snd (handle s now auth r)" e'] Cons.prems(3) x show ?case
    by simp
qed

lemma closed_rejects:
  assumes "emergencies s i = Some e" and "status e \<noteq> Some (gate_status g)"
  shows "(may_confirm g e u \<longrightarrow>
            confirm_direct g s now (Some u) i = (Inl (wrong_state g), s))
       \<and> (meta_role u = Some ''hospital'' \<longrightarrow>
            post_hospital_confirm s now (Some u) i (Some (gate_name g))
              = (Inl (wrong_state g), s))
       \<and> ((meta_role u = Some ''ambulance'' \<or> meta_role u = Some ''hospital'')
            \<and> status e \<noteq> Some (gate_status (other_gate g)) \<longrightarrow>
            isl (fst (post_timeout_advance s now (Some u) i))
            \<and> snd (post_timeout_advance s now (Some u) i) = s)"
proof -
  from assms(1) have "kv_get s i = Some (Obj e)"
    by (simp add: emergencies_get)
  with assms(2) show ?thesis
    by (cases g)
       (auto simp: post_confirm_arrival_def post_confirm_completion_def
          post_hospital_confirm_def post_timeout_advance_def Let_def wrong_state_def)
qed

section \<open>Advance status (PATCH /emergency/:id/status)\<close>

text \<open>
  C1 (the claim as stated fails). After scenario D the record is cancelled, and a further
  advance-status request with target \<open>enroute\<close> is answered with success and the record
  is stored with status \<open>enroute\<close>: the handler compares the target with nothing.
\<close>

theorem advance_after_cancelled_succeeds:
  "map_option status (emergencies st_cancelled id1) = Some (Some ''cancelled'') \<and>
   map_sum id status (map_sum id props
     (fst (patch_emergency_status st_cancelled 9000 (Some amb1) id1 ''enroute'' None)))
     = Inr (Some ''enroute'') \<and>
   map_option status
     (emergencies (snd (patch_emergency_status st_cancelled 9000 (Some amb1) id1 ''enroute'' None))
        id1) = Some (Some ''enroute'')"
  by code_simp

text \<open>
  C1 (amended). For an authenticated caller, advance status fails with the answer 404
  \<open>Emergency not found\<close> and leaves the store as it is when the store holds nothing
  under the identifier. When the identifier resolves, the request succeeds for every
  target status, whatever the current status and the caller's role, and the stored object
  is stored again with the target as its status. The identifier is looked up as a raw key:
  it resolves for an emergency record and as well for any other stored value, such as the
  profile under \<open>user:<id>\<close>.
\<close>

theorem patch_status_unchecked:
  "(kv_get s i = None \<longrightarrow>
      patch_emergency_status s now (Some user) i target nts
        = (Inl (Error 404 ''Emergency not found''), s)) \<and>
   (kv_get s i \<noteq> None \<longrightarrow>
      \<not> isl (fst (patch_emergency_status s now (Some user) i target nts))) \<and>
   (kv_get s i = Some (Obj e) \<longrightarrow>
      (\<exists>e'. fst (patch_emergency_status s now (Some user) i target nts) = Inr (Obj e')
          \<and> status e' = Some target
          \<and> kv_get (snd (patch_emergency_status s now (Some user) i target nts)) i
              = Some (Obj e')))"
proof -
  have "kv_get s i = Some (Obj e) \<Longrightarrow> i \<noteq> ''emergencies:active''"
    by (auto simp: kv_get_def split: if_splits)
  then show ?thesis
    by (auto simp: patch_emergency_status_def Let_def kv_get_put_obj split: option.splits)
qed

theorem patch_status_unchecked_witness:
  "patch_emergency_status st_cancelled 9000 (Some amb1) ''emergency:1:nobody'' ''enroute'' None
     = (Inl (Error 404 ''Emergency not found''), st_cancelled) \<and>
   (\<exists>e'. fst (patch_emergency_status st_cancelled 9000 (Some amb1) id1 ''pending'' None)
            = Inr (Obj e')
      \<and> status e' = Some ''pending''
      \<and> kv_get (snd (patch_emergency_status st_cancelled 9000 (Some amb1) id1 ''pending'' None))
           id1 = Some (Obj e')) \<and>
   (\<exists>e'. fst (patch_emergency_status st_cancelled 9000 (Some amb1) ''user:a2'' ''enroute'' None)
            = Inr (Obj e')
      \<and> status e' = Some ''enroute''
      \<and> kv_get (snd (patch_emergency_status st_cancelled 9000 (Some amb1) ''user:a2''
                        ''enroute'' None))
           ''user:a2'' = Some (Obj e'))"
proof -
  have absent: "kv_get st_cancelled ''emergency:1:nobody'' = None"
    by code_simp
  have stored: "kv_get st_cancelled id1 = Some (Obj (the (emergencies st_cancelled id1)))"
    by code_simp
  have profile: "kv_get st_cancelled ''user:a2'' = Some (Obj (the (users st_cancelled ''a2'')))"
    by code_simp
  show ?thesis
    using patch_status_unchecked [of st_cancelled "''emergency:1:nobody''" 9000 amb1 "''enroute''" None]
      patch_status_unchecked [where s = st_cancelled and i = id1
        and e = "the (emergencies st_cancelled id1)" and now = 9000 and user = amb1
        and target = "''pending''" and nts = None]
      patch_status_unchecked [where s = st_cancelled and i = "''user:a2''"
        and e = "the (users st_cancelled ''a2'')" and now = 9000 and user = amb1
        and target = "''enroute''" and nts = None]
      absent stored profile
    by blast
qed

section \<open>The gate invariant\<close>

text \<open>
  C2 (the claim as stated fails). With the ambulance at the scene and the record awaiting
  confirmation, an advance-status request with target \<open>patient_loaded\<close> succeeds and
  leaves \<open>awaitingPatientConfirmation\<close> true: the record awaits confirmation in a status
  that is not gated.
\<close>

theorem awaiting_survives_unconfirmed_advance:
  "map_option status (emergencies st_skipped_gate id1) = Some (Some ''patient_loaded'') \<and>
   map_option awaitingPatientConfirmation (emergencies st_skipped_gate id1) = Some (Some True) \<and>
   map_option gate_inv (emergencies st_skipped_gate id1) = Some False"
  by code_simp

text \<open>
  C2 (amended). If every record satisfies the gate invariant (awaiting confirmation exactly
  when the status is \<open>arrived_at_scene\<close> or \<open>arrived_at_hospital\<close> and that gate is not
  confirmed), then so does every record after a creation, a direct confirmation, a proxy
  confirmation and a timeout advance, whatever their answer; after an assignment and after
  an advance into a status that is not gated when the record was not awaiting confirmation
  before; and after an advance into a gated status when that gate was not confirmed before.
\<close>

theorem gate_inv_kept:
  assumes "\<forall>j e. emergencies s j = Some e \<longrightarrow> gate_inv e" and "keeps_gate s r"
  shows "\<forall>j e. emergencies (snd (handle s now auth r)) j = Some e \<longrightarrow> gate_inv e"
proof (cases "isl (fst (handle s now auth r))")
  case True
  with handle_error_unchanged [of s now auth r] assms(1) show ?thesis
    by simp
next
  case False
  show ?thesis
  proof (intro allI impI)
    fix j e assume stored: "emergencies (snd (handle s now auth r)) j = Some e"
    show "gate_inv e"
    proof (cases "j = request_key now auth r")
      case True
      with stored have "is_emergency_key (request_key now auth r)"
        by (auto simp: emergencies_def split: if_splits)
      from handle_success_gate [OF this, of s] False assms(2) True stored show ?thesis
        by auto
    next
      case False
      with stored handle_frame [of j now auth r s] assms(1) show ?thesis
        by simp
    qed
  qed
qed

theorem gate_inv_kept_witness:
  "map_option gate_inv (emergencies st_loaded id1) = Some True"
proof -
  have "\<forall>j e. emergencies st_signed_up j = Some e \<longrightarrow> gate_inv e"
    by (simp add: st_signed_up_def post_signup_def kv_empty_def emergencies_def
          kv_put.simps user_key_def is_emergency_key_def)
  moreover have "keeps_gate st_signed_up
      (PostEmergency (Some (129716 / 10000)) (Some (775946 / 10000)) (Some ''chest pain'') None None)"
    by (simp add: keeps_gate_def)
  ultimately have "\<forall>j e. emergencies st_created j = Some e \<longrightarrow> gate_inv e"
    using gate_inv_kept [of st_signed_up
        "PostEmergency (Some (129716 / 10000)) (Some (775946 / 10000)) (Some ''chest pain'') None None"
        1000 "Some patient1"]
    by (simp add: st_created_def)
  moreover have "keeps_gate st_created (PostAssign id1 (Some ''a1'') (Some ''h1'') (Some 10))"
    by code_simp
  ultimately have "\<forall>j e. emergencies st_assigned j = Some e \<longrightarrow> gate_inv e"
    using gate_inv_kept [of st_created "PostAssign id1 (Some ''a1'') (Some ''h1'') (Some 10)"
        2000 "Some hosp1"]
    by (simp add: st_assigned_def)
  moreover have "keeps_gate st_assigned (PatchStatus id1 ''enroute'' None)"
    by code_simp
  ultimately have "\<forall>j e. emergencies st_enroute j = Some e \<longrightarrow> gate_inv e"
    using gate_inv_kept [of st_assigned "PatchStatus id1 ''enroute'' None" 3000 "Some amb1"]
    by (simp add: st_enroute_def)
  moreover have "keeps_gate st_enroute (PatchStatus id1 ''arrived_at_scene'' None)"
    by code_simp
  ultimately have "\<forall>j e. emergencies st_at_scene j = Some e \<longrightarrow> gate_inv e"
    using gate_inv_kept [of st_enroute "PatchStatus id1 ''arrived_at_scene'' None" 4000 "Some amb1"]
    by (simp add: st_at_scene_def)
  moreover have "keeps_gate st_at_scene (PostConfirmArrival id1)"
    by (simp add: keeps_gate_def)
  ultimately have "\<forall>j e. emergencies st_loaded j = Some e \<longrightarrow> gate_inv e"
    using gate_inv_kept [of st_at_scene "PostConfirmArrival id1" 5000 "Some patient1"]
    by (simp add: st_loaded_def)
  moreover have "emergencies st_loaded id1 \<noteq> None"
    by code_simp
  ultimately show ?thesis
    by auto
qed

section \<open>Assignment (POST /emergency/:id/assign)\<close>

text \<open>
  C3 (the claim as stated fails). The record of the walk is already assigned to ambulance
  \<open>a1\<close>; a second assignment, to ambulance \<open>a2\<close>, is answered with success and replaces
  the unit on the record.
\<close>

theorem second_assign_succeeds:
  "map_option status (emergencies st_assigned id1) = Some (Some ''assigned'') \<and>
   map_option ambulanceId (emergencies st_assigned id1) = Some (Some ''a1'') \<and>
   map_sum id ambulanceId (map_sum id props
     (fst (post_emergency_assign st_assigned 2500 (Some hosp1) id1 (Some ''a2'') (Some ''h1'') None)))
     = Inr (Some ''a2'') \<and>
   map_option ambulanceId (emergencies st_reassigned id1) = Some (Some ''a2'')"
  by code_simp

text \<open>
  C3 (amended). For an authenticated caller, assign fails with the answer 404
  \<open>Emergency not found\<close> and leaves the store as it is when the store holds nothing
  under the identifier. When the identifier resolves (it is looked up as a raw key, so it
  resolves for any stored value), assign succeeds; for an emergency record it succeeds
  whatever the record's status, and the record is stored with status \<open>assigned\<close> and with
  the unit and the facility of the request (the caller where the request names none).
\<close>

theorem assign_unchecked:
  "(kv_get s i = None \<longrightarrow>
      post_emergency_assign s now (Some user) i ambId hospId eta
        = (Inl (Error 404 ''Emergency not found''), s)) \<and>
   (kv_get s i \<noteq> None \<longrightarrow>
      \<not> isl (fst (post_emergency_assign s now (Some user) i ambId hospId eta))) \<and>
   (emergencies s i \<noteq> None \<longrightarrow>
      (\<exists>e'. fst (post_emergency_assign s now (Some user) i ambId hospId eta) = Inr (Obj e')
          \<and> status e' = Some ''assigned''
          \<and> ambulanceId e' = Some (or_str ambId (uid user))
          \<and> hospitalId e' = Some (or_str hospId (uid user))
          \<and> emergencies (snd (post_emergency_assign s now (Some user) i ambId hospId eta)) i
              = Some e'))"
proof -
  have a: "kv_get s i = None \<longrightarrow>
      post_emergency_assign s now (Some user) i ambId hospId eta
        = (Inl (Error 404 ''Emergency not found''), s)"
    by (simp add: post_emergency_assign_def)
  have b: "kv_get s i \<noteq> None \<longrightarrow>
      \<not> isl (fst (post_emergency_assign s now (Some user) i ambId hospId eta))"
    by (auto simp: post_emergency_assign_def Let_def split: option.splits)
  have c: "emergencies s i \<noteq> None \<longrightarrow>
      (\<exists>e'. fst (post_emergency_assign s now (Some user) i ambId hospId eta) = Inr (Obj e')
          \<and> status e' = Some ''assigned''
          \<and> ambulanceId e' = Some (or_str ambId (uid user))
          \<and> hospitalId e' = Some (or_str hospId (uid user))
          \<and> emergencies (snd (post_emergency_assign s now (Some user) i ambId hospId eta)) i
              = Some e')"
  proof
    assume "emergencies s i \<noteq> None"
    then obtain e where "emergencies s i = Some e" by blast
    then have "is_emergency_key i" and "kv_get s i = Some (Obj e)"
      by (simp_all add: emergencies_get)
    then show "\<exists>e'. fst (post_emergency_assign s now (Some user) i ambId hospId eta) = Inr (Obj e')
          \<and> status e' = Some ''assigned''
          \<and> ambulanceId e' = Some (or_str ambId (uid user))
          \<and> hospitalId e' = Some (or_str hospId (uid user))
          \<and> emergencies (snd (post_emergency_assign s now (Some user) i ambId hospId eta)) i
              = Some e'"
      by (simp add: post_emergency_assign_def Let_def kv_get_user kv_get_put_obj key_kinds
            split: option.splits)
  qed
  from a b c show ?thesis by blast
qed

theorem assign_unchecked_witness:
  "post_emergency_assign st_completed 9000 (Some hosp1) ''emergency:1:nobody'' None None None
     = (Inl (Error 404 ''Emergency not found''), st_completed) \<and>
   \<not> isl (fst (post_emergency_assign st_completed 9000 (Some hosp1) ''user:a2'' None None None)) \<and>
   (\<exists>e'. fst (post_emergency_assign st_completed 9000 (Some hosp1) id1 (Some ''a2'') None None)
            = Inr (Obj e')
      \<and> status e' = Some ''assigned''
      \<and> ambulanceId e' = Some ''a2''
      \<and> hospitalId e' = Some ''h1''
      \<and> emergencies
           (snd (post_emergency_assign st_completed 9000 (Some hosp1) id1 (Some ''a2'') None None))
           id1 = Some e')"
proof -
  have absent: "kv_get st_completed ''emergency:1:nobody'' = None"
    by code_simp
  have profile: "kv_get st_completed ''user:a2'' \<noteq> None"
    by code_simp
  have present: "emergencies st_completed id1 \<noteq> None"
    by code_simp
  have unit: "or_str (Some ''a2'') (uid hosp1) = ''a2''" and facility: "or_str None (uid hosp1) = ''h1''"
    by (simp_all add: or_str_def hosp1_def)
  show ?thesis
    using assign_unchecked [of st_completed "''emergency:1:nobody''" 9000 hosp1 None None None]
      assign_unchecked [of st_completed "''user:a2''" 9000 hosp1 None None None]
      assign_unchecked [of st_completed id1 9000 hosp1 "Some ''a2''" None None]
      absent profile present unit facility
    by simp
qed

section \<open>Timeout advance (POST /emergency/:id/timeout-advance)\<close>



text \<open>
  C10. A record in status \<open>arrived_at_scene\<close> without \<open>arrivedAtSceneAt\<close> (or in status
  \<open>arrived_at_hospital\<close> without \<open>arrivedAtHospitalAt\<close>): for a caller whose role is
  ambulance or hospital the timeout advance answers 400 \<open>Timeout period has not passed
  yet\<close> at every time \<open>now\<close>, and the store, hence the record, is as before.
\<close>

theorem timeout_advance_without_timestamp:
  assumes "emergencies s i = Some e"
      and "meta_role u = Some ''ambulance'' \<or> meta_role u = Some ''hospital''"
      and "(status e = Some ''arrived_at_scene'' \<and> arrivedAtSceneAt e = None)
         \<or> (status e = Some ''arrived_at_hospital'' \<and> arrivedAtHospitalAt e = None)"
  shows "post_timeout_advance s now (Some u) i
           = (Inl (Error 400 ''Timeout period has not passed yet (30 minutes required)''), s)"
proof -
  from assms(1) have "kv_get s i = Some (Obj e)"
    by (simp add: emergencies_get)
  with assms(2,3) show ?thesis
    by (auto simp: post_timeout_advance_def Let_def)
qed

theorem timeout_advance_without_timestamp_witness:
  "post_timeout_advance st_legacy_at_scene 999999999 (Some amb1) id1
     = (Inl (Error 400 ''Timeout period has not passed yet (30 minutes required)''),
        st_legacy_at_scene)"
proof -
  have stored: "emergencies st_legacy_at_scene id1 = Some (the (emergencies st_legacy_at_scene id1))"
    by code_simp
  have amb: "meta_role amb1 = Some ''ambulance'' \<or> meta_role amb1 = Some ''hospital''"
    by (simp add: amb1_def)
  have untimed: "status (the (emergencies st_legacy_at_scene id1)) = Some ''arrived_at_scene''
      \<and> arrivedAtSceneAt (the (emergencies st_legacy_at_scene id1)) = None"
    by code_simp
  show ?thesis
    using timeout_advance_without_timestamp [OF stored amb, of 999999999] untimed
    by blast
qed

section \<open>Resolution of a gate\<close>

text \<open>
  C5 (the claim as stated fails). The patient has confirmed the arrival, so the first gate
  is resolved. The ambulance then reports the arrival at the scene once more, which the
  status route accepts. Now the facility's proxy confirmation of the arrival succeeds and
  brings the record to \<open>patient_loaded\<close> a second time; and a timeout advance, thirty
  minutes later, succeeds as well and sets the patient's confirmation of the arrival back
  to false.
\<close>

theorem reopened_gate_resolved_again:
  "map_option status (emergencies st_loaded id1) = Some (Some ''patient_loaded'') \<and>
   map_option patientConfirmedArrival (emergencies st_loaded id1) = Some (Some True) \<and>
   map_option status (emergencies st_reopened id1) = Some (Some ''arrived_at_scene'') \<and>
   map_sum id status (map_sum id props
     (fst (post_hospital_confirm st_reopened 5300 (Some hosp1) id1 (Some ''arrival''))))
     = Inr (Some ''patient_loaded'') \<and>
   map_sum id status (map_sum id props
     (fst (post_timeout_advance st_reopened 1805200 (Some amb1) id1)))
     = Inr (Some ''patient_loaded'') \<and>
   map_sum id patientConfirmedArrival (map_sum id props
     (fst (post_timeout_advance st_reopened 1805200 (Some amb1) id1)))
     = Inr (Some False)"
  by code_simp

text \<open>
  C5 (amended). Once a direct confirmation, a proxy confirmation or a timeout advance has
  succeeded for a gate of a record, then after any further requests, as long as none of
  them is an advance of that record into the gate's status, the record is outside the
  gate's status and every call of a path for that gate on that record fails and leaves the
  store as it is: a direct confirmation (by a caller allowed to confirm that gate) and a
  proxy confirmation (by a hospital) with the wrong-state answer 400
  \<open>Emergency is not in ... status\<close>, and a timeout advance (by an ambulance or a
  hospital) unless the record then waits at the other gate.
\<close>

theorem resolved_gate_stays_closed:
  assumes "emergencies s i = Some e"
      and "resolves s r i g"
      and "\<not> isl (fst (handle s now auth r))"
      and "\<forall>x \<in> set rs. \<not> reopens i g (snd (snd x))"
      and "s2 = run (snd (handle s now auth r)) rs"
  shows "\<exists>e2. emergencies s2 i = Some e2
           \<and> status e2 \<noteq> Some (gate_status g)
           \<and> (may_confirm g e2 u \<longrightarrow>
                confirm_direct g s2 now' (Some u) i = (Inl (wrong_state g), s2))
           \<and> (meta_role u = Some ''hospital'' \<longrightarrow>
                post_hospital_confirm s2 now' (Some u) i (Some (gate_name g))
                  = (Inl (wrong_state g), s2))
           \<and> ((meta_role u = Some ''ambulance'' \<or> meta_role u = Some ''hospital'')
                \<and> status e2 \<noteq> Some (gate_status (other_gate g)) \<longrightarrow>
                isl (fst (post_timeout_advance s2 now' (Some u) i))
                \<and> snd (post_timeout_advance s2 now' (Some u) i) = s2)"
proof -
  from assms(2) have key: "i = request_key now auth r"
    by (rule resolves_key)
  with assms(1) have "is_emergency_key (request_key now auth r)"
    by (simp add: emergencies_get)
  from closed_after_resolution [OF this, of s g] assms(2,3) key
  obtain e1 where "emergencies (snd (handle s now auth r)) i = Some e1"
    and "status e1 \<noteq> Some (gate_status g)"
    by auto
  with assms(4,5) obtain e2 where stored: "emergencies s2 i = Some e2"
    and closed: "status e2 \<noteq> Some (gate_status g)"
    using closed_run [of "snd (handle s now auth r)" i e1 g rs] by auto
  from closed_rejects [OF stored closed, of u now'] stored closed show ?thesis
    by blast
qed

theorem resolved_gate_stays_closed_witness:
  "confirm_direct Arrival st_at_hospital 7500 (Some patient1) id1
     = (Inl (wrong_state Arrival), st_at_hospital) \<and>
   post_hospital_confirm st_at_hospital 7500 (Some hosp1) id1 (Some (gate_name Arrival))
     = (Inl (wrong_state Arrival), st_at_hospital) \<and>
   isl (fst (post_timeout_advance st_loaded 5500 (Some amb1) id1)) \<and>
   snd (post_timeout_advance st_loaded 5500 (Some amb1) id1) = st_loaded"
proof -
  let ?e = "the (emergencies st_at_scene id1)"
  let ?rs = "[(6000, Some amb1, PatchStatus id1 ''enroute_to_hospital'' None),
              (7000, Some amb1, PatchStatus id1 ''arrived_at_hospital'' None)]"
  have stored: "emergencies st_at_scene id1 = Some ?e"
    by code_simp
  have path: "resolves st_at_scene (PostConfirmArrival id1) id1 Arrival"
    by simp
  have ok: "\<not> isl (fst (handle st_at_scene 5000 (Some patient1) (PostConfirmArrival id1)))"
    by code_simp
  have later: "\<forall>x \<in> set ?rs. \<not> reopens id1 Arrival (snd (snd x))"
    by simp
  have none: "\<forall>x \<in> set []. \<not> reopens id1 Arrival (snd (snd x))"
    by simp
  have walk: "st_at_hospital
                = run (snd (handle st_at_scene 5000 (Some patient1) (PostConfirmArrival id1))) ?rs"
    by (simp add: st_at_hospital_def st_to_hospital_def st_loaded_def)
  have first: "st_loaded
                = run (snd (handle st_at_scene 5000 (Some patient1) (PostConfirmArrival id1))) []"
    by (simp add: st_loaded_def)
  have requester: "patientId (the (emergencies st_at_hospital id1)) = Some (uid patient1)"
    by code_simp
  have roles: "meta_role hosp1 = Some ''hospital''"
    "meta_role amb1 = Some ''ambulance'' \<or> meta_role amb1 = Some ''hospital''"
    by (simp_all add: hosp1_def amb1_def)
  have loaded: "status (the (emergencies st_loaded id1)) \<noteq> Some (gate_status (other_gate Arrival))"
    by code_simp
  from resolved_gate_stays_closed [OF stored path ok later walk, of patient1 7500] requester
  have a: "confirm_direct Arrival st_at_hospital 7500 (Some patient1) id1
     = (Inl (wrong_state Arrival), st_at_hospital)"
    by auto
  from resolved_gate_stays_closed [OF stored path ok later walk, of hosp1 7500] roles
  have b: "post_hospital_confirm st_at_hospital 7500 (Some hosp1) id1 (Some (gate_name Arrival))
     = (Inl (wrong_state Arrival), st_at_hospital)"
    by auto
  from resolved_gate_stays_closed [OF stored path ok none first, of amb1 5500] roles loaded
  have c: "isl (fst (post_timeout_advance st_loaded 5500 (Some amb1) id1)) \<and>
   snd (post_timeout_advance st_loaded 5500 (Some amb1) id1) = st_loaded"
    by auto
  from a b c show ?thesis by blast
qed

section \<open>Direct confirmation\<close>

text \<open>
  C6 (the claim as stated fails). The hospital named on the record is not the requester,
  and its direct confirmation of the completion is answered with success: the record is
  completed.
\<close>

theorem hospital_confirms_completion_directly:
  "map_option patientId (emergencies st_at_hospital id1) = Some (Some ''p1'') \<and>
   map_option hospitalId (emergencies st_at_hospital id1) = Some (Some ''h1'') \<and>
   uid hosp1 = ''h1'' \<and>
   map_sum id status (map_sum id props
     (fst (post_confirm_completion st_at_hospital 8000 (Some hosp1) id1)))
     = Inr (Some ''completed'') \<and>
   map_option status
     (emergencies (snd (post_confirm_completion st_at_hospital 8000 (Some hosp1) id1)) id1)
     = Some (Some ''completed'')"
  by code_simp

text \<open>
  C6 (amended). Direct confirmation of the arrival fails with the answer 403 for every
  caller who is not the record's requester; direct confirmation of the completion fails
  with the answer 403 for every caller who is neither the record's requester nor the
  facility named on the record (\<open>hospitalId\<close>). A caller who passes this check gets the
  wrong-state answer 400 when the record's status is not the gate's status. The store is
  as before after each of these failures.
\<close>

theorem direct_confirmation_callers:
  assumes "emergencies s i = Some e"
  shows "(patientId e \<noteq> Some (uid u) \<longrightarrow>
            post_confirm_arrival s now (Some u) i
              = (Inl (Error 403 ''Only the patient can confirm arrival''), s))
       \<and> (patientId e = Some (uid u) \<and> status e \<noteq> Some ''arrived_at_scene'' \<longrightarrow>
            post_confirm_arrival s now (Some u) i
              = (Inl (Error 400 ''Emergency is not in arrived_at_scene status''), s))
       \<and> (patientId e \<noteq> Some (uid u) \<and> hospitalId e \<noteq> Some (uid u) \<longrightarrow>
            post_confirm_completion s now (Some u) i
              = (Inl (Error 403 ''Only the patient or hospital can confirm completion''), s))
       \<and> ((patientId e = Some (uid u) \<or> hospitalId e = Some (uid u))
            \<and> status e \<noteq> Some ''arrived_at_hospital'' \<longrightarrow>
            post_confirm_completion s now (Some u) i
              = (Inl (Error 400 ''Emergency is not in arrived_at_hospital status''), s))"
proof -
  from assms have "kv_get s i = Some (Obj e)"
    by (simp add: emergencies_get)
  then show ?thesis
    by (auto simp: post_confirm_arrival_def post_confirm_completion_def Let_def)
qed

theorem direct_confirmation_callers_witness:
  "post_confirm_arrival st_at_scene 5000 (Some amb1) id1
     = (Inl (Error 403 ''Only the patient can confirm arrival''), st_at_scene) \<and>
   post_confirm_completion st_at_scene 5000 (Some amb1) id1
     = (Inl (Error 403 ''Only the patient or hospital can confirm completion''), st_at_scene) \<and>
   post_confirm_completion st_at_scene 5000 (Some patient1) id1
     = (Inl (Error 400 ''Emergency is not in arrived_at_hospital status''), st_at_scene) \<and>
   post_confirm_completion st_at_scene 5000 (Some hosp1) id1
     = (Inl (Error 400 ''Emergency is not in arrived_at_hospital status''), st_at_scene) \<and>
   post_confirm_arrival st_at_hospital 8000 (Some patient1) id1
     = (Inl (Error 400 ''Emergency is not in arrived_at_scene status''), st_at_hospital)"
proof -
  let ?e1 = "the (emergencies st_at_scene id1)" and ?e2 = "the (emergencies st_at_hospital id1)"
  have scene: "emergencies st_at_scene id1 = Some ?e1"
    and hosp: "emergencies st_at_hospital id1 = Some ?e2"
    by code_simp+
  have facts1: "patientId ?e1 \<noteq> Some (uid amb1)" "hospitalId ?e1 \<noteq> Some (uid amb1)"
    "patientId ?e1 = Some (uid patient1)" "hospitalId ?e1 = Some (uid hosp1)"
    "status ?e1 \<noteq> Some ''arrived_at_hospital''"
    by code_simp+
  have facts2: "patientId ?e2 = Some (uid patient1)" "status ?e2 \<noteq> Some ''arrived_at_scene''"
    by code_simp+
  from direct_confirmation_callers [OF scene, of amb1 5000] facts1
  have a: "post_confirm_arrival st_at_scene 5000 (Some amb1) id1
     = (Inl (Error 403 ''Only the patient can confirm arrival''), st_at_scene)"
    and b: "post_confirm_completion st_at_scene 5000 (Some amb1) id1
     = (Inl (Error 403 ''Only the patient or hospital can confirm completion''), st_at_scene)"
    by simp_all
  from direct_confirmation_callers [OF scene, of patient1 5000] facts1
  have c: "post_confirm_completion st_at_scene 5000 (Some patient1) id1
     = (Inl (Error 400 ''Emergency is not in arrived_at_hospital status''), st_at_scene)"
    by simp
  from direct_confirmation_callers [OF scene, of hosp1 5000] facts1
  have d: "post_confirm_completion st_at_scene 5000 (Some hosp1) id1
     = (Inl (Error 400 ''Emergency is not in arrived_at_hospital status''), st_at_scene)"
    by simp
  from direct_confirmation_callers [OF hosp, of patient1 8000] facts2
  have e: "post_confirm_arrival st_at_hospital 8000 (Some patient1) id1
     = (Inl (Error 400 ''Emergency is not in arrived_at_scene status''), st_at_hospital)"
    by simp
  from a b c d e show ?thesis by blast
qed

section \<open>The active index\<close>

text \<open>
  C7 (the claim as stated fails). The completed emergency of the walk is set back to
  \<open>enroute\<close> by an advance-status request: its status is not terminal, yet its
  identifier is not in the active list and the list of active emergencies is empty.
\<close>

theorem revived_record_not_listed:
  "map_option status (emergencies st_completed id1) = Some (Some ''completed'') \<and>
   map_option status (emergencies st_revived id1) = Some (Some ''enroute'') \<and>
   active st_revived = Some [] \<and>
   get_emergencies_active st_revived (Some hosp1) = Inr []"
  by code_simp

text \<open>
  C7 (amended). Let the identifier of every record be in the active list exactly when the
  record's status is neither \<open>completed\<close> nor \<open>cancelled\<close>. After every request that
  does not bring a terminal record back (every creation, confirmation and timeout advance,
  an assignment of a record that is not terminal, an advance that leaves a terminal record
  terminal) the same holds again; and, the list holding keys of emergencies only (as it
  does from the empty store on, and then does again), the list of active emergencies
  answered to a hospital or an ambulance consists of exactly the records that are not
  terminal.
\<close>

theorem active_index_kept:
  assumes "\<forall>j e. emergencies s j = Some e \<longrightarrow>
             (j \<in> set (active_or_empty s)) = (\<not> terminal (status e))"
      and "keeps_terminal s r"
      and "meta_role u = Some ''hospital'' \<or> meta_role u = Some ''ambulance''"
  shows "(\<forall>j e. emergencies (snd (handle s now auth r)) j = Some e \<longrightarrow>
            (j \<in> set (active_or_empty (snd (handle s now auth r)))) = (\<not> terminal (status e)))
       \<and> ((\<forall>j \<in> set (active_or_empty s). is_emergency_key j) \<longrightarrow>
            (\<forall>j \<in> set (active_or_empty (snd (handle s now auth r))). is_emergency_key j)
            \<and> (\<exists>l. get_emergencies_active (snd (handle s now auth r)) (Some u) = Inr l
                  \<and> set l = Obj ` {e. \<exists>j. emergencies (snd (handle s now auth r)) j = Some e
                                        \<and> \<not> terminal (status e)}))"
proof -
  from assms(1,2)
  have step: "\<forall>j e. emergencies (snd (handle s now auth r)) j = Some e \<longrightarrow>
            (j \<in> set (active_or_empty (snd (handle s now auth r)))) = (\<not> terminal (status e))"
    by (rule active_index_step)
  have "(\<forall>j \<in> set (active_or_empty s). is_emergency_key j) \<longrightarrow>
            (\<forall>j \<in> set (active_or_empty (snd (handle s now auth r))). is_emergency_key j)
            \<and> (\<exists>l. get_emergencies_active (snd (handle s now auth r)) (Some u) = Inr l
                  \<and> set l = Obj ` {e. \<exists>j. emergencies (snd (handle s now auth r)) j = Some e
                                        \<and> \<not> terminal (status e)})"
  proof
    assume "\<forall>j \<in> set (active_or_empty s). is_emergency_key j"
    then have keys: "\<forall>j \<in> set (active_or_empty (snd (handle s now auth r))). is_emergency_key j"
      by (rule active_keys_step)
    from step keys assms(3)
    have "\<exists>l. get_emergencies_active (snd (handle s now auth r)) (Some u) = Inr l
             \<and> set l = Obj ` {e. \<exists>j. emergencies (snd (handle s now auth r)) j = Some e
                                   \<and> \<not> terminal (status e)}"
      by (rule list_active_exact)
    with keys show "(\<forall>j \<in> set (active_or_empty (snd (handle s now auth r))). is_emergency_key j)
            \<and> (\<exists>l. get_emergencies_active (snd (handle s now auth r)) (Some u) = Inr l
                  \<and> set l = Obj ` {e. \<exists>j. emergencies (snd (handle s now auth r)) j = Some e
                                        \<and> \<not> terminal (status e)})"
      by blast
  qed
  with step show ?thesis by blast
qed

theorem active_index_kept_witness:
  "id1 \<in> set (active_or_empty st_at_hospital) \<and> id1 \<notin> set (active_or_empty st_completed) \<and>
   get_emergencies_active st_completed (Some hosp1) = Inr []"
proof -
  let ?inv = "\<lambda>s. \<forall>j e. emergencies s j = Some e \<longrightarrow>
                (j \<in> set (active_or_empty s)) = (\<not> terminal (status e))"
  have role: "meta_role hosp1 = Some ''hospital'' \<or> meta_role hosp1 = Some ''ambulance''"
    by (simp add: hosp1_def)
  have "?inv st_signed_up"
    by (simp add: st_signed_up_def post_signup_def kv_empty_def emergencies_def
          kv_put.simps user_key_def is_emergency_key_def)
  moreover have "keeps_terminal st_signed_up
      (PostEmergency (Some (129716 / 10000)) (Some (775946 / 10000)) (Some ''chest pain'') None None)"
    by (simp add: keeps_terminal_def)
  ultimately have "?inv st_created"
    using active_index_kept [OF _ _ role, of st_signed_up
        "PostEmergency (Some (129716 / 10000)) (Some (775946 / 10000)) (Some ''chest pain'') None None"
        1000 "Some patient1"]
    by (simp add: st_created_def)
  moreover have "keeps_terminal st_created (PostAssign id1 (Some ''a1'') (Some ''h1'') (Some 10))"
    by code_simp
  ultimately have "?inv st_assigned"
    using active_index_kept [OF _ _ role, of st_created
        "PostAssign id1 (Some ''a1'') (Some ''h1'') (Some 10)" 2000 "Some hosp1"]
    by (simp add: st_assigned_def)
  moreover have "keeps_terminal st_assigned (PatchStatus id1 ''enroute'' None)"
    by code_simp
  ultimately have "?inv st_enroute"
    using active_index_kept [OF _ _ role, of st_assigned
        "PatchStatus id1 ''enroute'' None" 3000 "Some amb1"]
    by (simp add: st_enroute_def)
  moreover have "keeps_terminal st_enroute (PatchStatus id1 ''arrived_at_scene'' None)"
    by code_simp
  ultimately have "?inv st_at_scene"
    using active_index_kept [OF _ _ role, of st_enroute
        "PatchStatus id1 ''arrived_at_scene'' None" 4000 "Some amb1"]
    by (simp add: st_at_scene_def)
  moreover have "keeps_terminal st_at_scene (PostConfirmArrival id1)"
    by (simp add: keeps_terminal_def)
  ultimately have "?inv st_loaded"
    using active_index_kept [OF _ _ role, of st_at_scene
        "PostConfirmArrival id1" 5000 "Some patient1"]
    by (simp add: st_loaded_def)
  moreover have "keeps_terminal st_loaded (PatchStatus id1 ''enroute_to_hospital'' None)"
    by code_simp
  ultimately have "?inv st_to_hospital"
    using active_index_kept [OF _ _ role, of st_loaded
        "PatchStatus id1 ''enroute_to_hospital'' None" 6000 "Some amb1"]
    by (simp add: st_to_hospital_def)
  moreover have "keeps_terminal st_to_hospital (PatchStatus id1 ''arrived_at_hospital'' None)"
    by code_simp
  ultimately have at_hospital: "?inv st_at_hospital"
    using active_index_kept [OF _ _ role, of st_to_hospital
        "PatchStatus id1 ''arrived_at_hospital'' None" 7000 "Some amb1"]
    by (simp add: st_at_hospital_def)
  have last: "keeps_terminal st_at_hospital (PostConfirmCompletion id1)"
    by (simp add: keeps_terminal_def)
  have keys: "\<forall>j \<in> set (active_or_empty st_at_hospital). is_emergency_key j"
    by code_simp
  from active_index_kept [OF at_hospital last role, of 8000 "Some patient1"] keys
  have completed: "?inv st_completed"
    and listed: "\<exists>l. get_emergencies_active st_completed (Some hosp1) = Inr l
          \<and> set l = Obj ` {e. \<exists>j. emergencies st_completed j = Some e \<and> \<not> terminal (status e)}"
    by (simp_all add: st_completed_def)
  have "emergencies st_at_hospital id1 = Some (the (emergencies st_at_hospital id1))"
    and "\<not> terminal (status (the (emergencies st_at_hospital id1)))"
    by code_simp+
  with at_hospital have a: "id1 \<in> set (active_or_empty st_at_hospital)"
    by blast
  have "emergencies st_completed id1 = Some (the (emergencies st_completed id1))"
    and "terminal (status (the (emergencies st_completed id1)))"
    by code_simp+
  with completed have b: "id1 \<notin> set (active_or_empty st_completed)"
    by blast
  have empty: "active_or_empty st_completed = []"
    by code_simp
  with completed
  have none: "{e. \<exists>j. emergencies st_completed j = Some e \<and> \<not> terminal (status e)} = {}"
    by auto
  from listed have "\<exists>l. get_emergencies_active st_completed (Some hosp1) = Inr l
          \<and> set l = Obj ` {}"
    unfolding none .
  then have c: "get_emergencies_active st_completed (Some hosp1) = Inr []"
    by auto
  from a b c show ?thesis by blast
qed

text \<open>
  C8 (the claim as stated fails). The creation request arrives twice within one
  millisecond: the identifier is the same, it is appended a second time, and the list of
  active emergencies answers the record twice.
\<close>

theorem second_add_duplicates:
  "active st_created = Some [id1] \<and> active st_created_twice = Some [id1, id1] \<and>
   map_sum id length (get_emergencies_active st_created_twice (Some hosp1)) = Inr 2"
  by code_simp

text \<open>
  C8 (amended). Removal from the active list is idempotent and never an error: removing an
  identifier that is absent leaves the list as it is, and removing twice is removing once.
  Adding, at a creation, appends the new identifier at the end of the list, without a look
  at the list, and is never an error.
\<close>

theorem active_list_maintenance:
  "(i \<notin> set (active_or_empty s) \<longrightarrow>
      active_or_empty (remove_from_active i s) = active_or_empty s) \<and>
   remove_from_active i (remove_from_active i s) = remove_from_active i s \<and>
   active_or_empty (snd (post_emergency s now (Some user) lat lon d n p))
     = active_or_empty s @ [''emergency:'' @ number_to_string now @ '':'' @ uid user] \<and>
   \<not> isl (fst (post_emergency s now (Some user) lat lon d n p))"
proof -
  have "i \<notin> set (active_or_empty s) \<longrightarrow>
      active_or_empty (remove_from_active i s) = active_or_empty s"
    by (auto simp: filter_id_conv)
  moreover have "remove_from_active i (remove_from_active i s) = remove_from_active i s"
    by (simp add: remove_from_active_def Let_def active_or_empty_def kv_put.simps)
  moreover have "active_or_empty (snd (post_emergency s now (Some user) lat lon d n p))
     = active_or_empty s @ [''emergency:'' @ number_to_string now @ '':'' @ uid user]"
    by (simp add: post_emergency_def Let_def emergency_key_def)
  moreover have "\<not> isl (fst (post_emergency s now (Some user) lat lon d n p))"
    by (simp add: post_emergency_def Let_def)
  ultimately show ?thesis by blast
qed

theorem active_list_maintenance_witness:
  "active_or_empty (remove_from_active ''emergency:1:nobody'' st_created) = [id1] \<and>
   active_or_empty (snd (post_emergency st_created 1001 (Some patient1) None None None None None))
     = [id1, ''emergency:1001:p1'']"
proof -
  have list: "active_or_empty st_created = [id1]"
    by code_simp
  have absent: "''emergency:1:nobody'' \<notin> set (active_or_empty st_created)"
    by code_simp
  have new: "''emergency:'' @ number_to_string 1001 @ '':'' @ uid patient1 = ''emergency:1001:p1''"
    by code_simp
  show ?thesis
    using active_list_maintenance [of "''emergency:1:nobody''" st_created 1001 patient1
        None None None None None] list absent new
    by simp
qed

section \<open>Availability of the unit\<close>

text \<open>
  C9 (the claim as stated fails). Ambulance \<open>a1\<close> is assigned, then the emergency is
  assigned again, to ambulance \<open>a2\<close>, which completes it. The record is completed and
  \<open>a2\<close> is available, but \<open>a1\<close> is still busy with the record as its current emergency.
\<close>

theorem replaced_unit_stays_busy:
  "map_option status (users st_assigned ''a1'') = Some (Some ''busy'') \<and>
   map_option status (emergencies st_reassigned_done id1) = Some (Some ''completed'') \<and>
   map_option status (users st_reassigned_done ''a2'') = Some (Some ''available'') \<and>
   map_option status (users st_reassigned_done ''a1'') = Some (Some ''busy'') \<and>
   map_option currentEmergency (users st_reassigned_done ''a1'') = Some (Some id1)"
  by code_simp

text \<open>
  C9 (amended). A successful assignment sets the profile of the unit it names, when there
  is one, to \<open>busy\<close> with the record as its current emergency. Whichever request brings a
  record from a status that is not terminal to \<open>completed\<close> or \<open>cancelled\<close> sets the
  profile of the unit then named on the record (the unit of the latest assignment), when
  there is one, to \<open>available\<close> with no current emergency.
\<close>

theorem unit_busy_then_released:
  "(emergencies s i = Some e \<and> users s (or_str ambId (uid user)) = Some p \<longrightarrow>
      users (snd (post_emergency_assign s now (Some user) i ambId hospId eta))
        (or_str ambId (uid user))
      = Some (p\<lparr>status := Some ''busy'', currentEmergency := Some i\<rparr>)) \<and>
   (emergencies s i = Some e \<and> \<not> terminal (status e)
      \<and> emergencies (snd (handle s now auth r)) i = Some e' \<and> terminal (status e')
      \<and> ambulanceId e' = Some a \<and> a \<noteq> [] \<and> users s a = Some p \<longrightarrow>
      users (snd (handle s now auth r)) a
      = Some (p\<lparr>status := Some ''available'', currentEmergency := None\<rparr>))"
  using assign_marks_busy [of s i e ambId user p now hospId eta]
    release_on_terminal [of s i e now auth r e' a p]
  by (simp add: released_def)

theorem unit_busy_then_released_witness:
  "map_option status (users st_assigned ''a1'') = Some (Some ''busy'') \<and>
   map_option currentEmergency (users st_assigned ''a1'') = Some (Some id1) \<and>
   map_option status (users st_completed ''a1'') = Some (Some ''available'') \<and>
   map_option currentEmergency (users st_completed ''a1'') = Some None"
proof -
  let ?e0 = "the (emergencies st_created id1)" and ?p0 = "the (users st_created ''a1'')"
  let ?e1 = "the (emergencies st_at_hospital id1)" and ?p1 = "the (users st_at_hospital ''a1'')"
  let ?e2 = "the (emergencies st_completed id1)"
  have pre_assign: "emergencies st_created id1 = Some ?e0"
    "users st_created (or_str (Some ''a1'') (uid hosp1)) = Some ?p0"
    by code_simp+
  have unit: "or_str (Some ''a1'') (uid hosp1) = ''a1''"
    by code_simp
  from unit_busy_then_released [where s = st_created and i = id1 and e = ?e0
      and ambId = "Some ''a1''" and user = hosp1 and p = ?p0 and now = 2000
      and hospId = "Some ''h1''" and eta = "Some 10"] pre_assign unit
  have busy: "users st_assigned ''a1''
                = Some (?p0\<lparr>status := Some ''busy'', currentEmergency := Some id1\<rparr>)"
    by (simp add: st_assigned_def)
  have pre_release: "emergencies st_at_hospital id1 = Some ?e1" "\<not> terminal (status ?e1)"
    "emergencies st_completed id1 = Some ?e2" "terminal (status ?e2)"
    "ambulanceId ?e2 = Some ''a1''" "users st_at_hospital ''a1'' = Some ?p1"
    by code_simp+
  have step: "st_completed = snd (handle st_at_hospital 8000 (Some patient1) (PostConfirmCompletion id1))"
    by (simp add: st_completed_def)
  from unit_busy_then_released [where s = st_at_hospital and i = id1 and e = ?e1
      and p = ?p1 and now = 8000 and auth = "Some patient1"
      and r = "PostConfirmCompletion id1" and e' = ?e2 and a = "''a1''"] pre_release
  have free: "users st_completed ''a1''
                = Some (?p1\<lparr>status := Some ''available'', currentEmergency := None\<rparr>)"
    unfolding step by simp
  from busy free show ?thesis by simp
qed

end
